theory Spec2Isabelle
  imports Complex_Main
begin

unbundle bit_operations_syntax

section \<open>JavaScript values used by the calculator\<close>

text \<open>
  The calculator of \<^verbatim>\<open>src/src/calculator.ts\<close> works on JavaScript numbers and strings.
  A number is modelled as not-a-number, an infinity, or a finite value kept as an exact
  real. The rounding of binary64 and the sign of zero are left out: they can matter only
  while a decimal literal with very many digits or a very small magnitude is parsed, or a
  power of two with a fractional exponent is taken; behind the bitwise operators every number
  the calculator computes is an integer far below \<open>2 ^ 53\<close>, where binary64 is exact.
  A string is a list of 8-bit code units.
\<close>

datatype number = NaN | PosInf | NegInf | Fin real

text \<open>The relational operator \<^verbatim>\<open><\<close>: false as soon as one side is not-a-number.\<close>

fun num_less :: "number \<Rightarrow> number \<Rightarrow> bool" where
  "num_less NaN _ = False"
| "num_less _ NaN = False"
| "num_less (Fin a) (Fin b) = (a < b)"
| "num_less PosInf _ = False"
| "num_less _ PosInf = True"
| "num_less _ NegInf = False"
| "num_less NegInf _ = True"

text \<open>The operators \<^verbatim>\<open>+\<close> and \<^verbatim>\<open>-\<close> on numbers.\<close>

fun num_neg :: "number \<Rightarrow> number" where
  "num_neg NaN = NaN"
| "num_neg PosInf = NegInf"
| "num_neg NegInf = PosInf"
| "num_neg (Fin a) = Fin (- a)"

fun num_add :: "number \<Rightarrow> number \<Rightarrow> number" where
  "num_add NaN _ = NaN"
| "num_add _ NaN = NaN"
| "num_add (Fin a) (Fin b) = Fin (a + b)"
| "num_add PosInf NegInf = NaN"
| "num_add NegInf PosInf = NaN"
| "num_add PosInf _ = PosInf"
| "num_add NegInf _ = NegInf"
| "num_add _ PosInf = PosInf"
| "num_add _ NegInf = NegInf"

definition num_sub :: "number \<Rightarrow> number \<Rightarrow> number" where
  "num_sub a b = num_add a (num_neg b)"

text \<open>
  \<^verbatim>\<open>ToInt32\<close> and \<^verbatim>\<open>ToUint32\<close>: a finite value is truncated towards zero and reduced
  modulo \<open>2 ^ 32\<close>, for \<^verbatim>\<open>ToInt32\<close> into the range from \<open>- 2 ^ 31\<close>; not-a-number and
  the infinities give 0.
\<close>

definition trunc :: "real \<Rightarrow> int" where
  "trunc q = (if q < 0 then - \<lfloor>- q\<rfloor> else \<lfloor>q\<rfloor>)"

definition int32 :: "int \<Rightarrow> int" where
  "int32 i = (if 2 ^ 31 \<le> i mod 2 ^ 32 then i mod 2 ^ 32 - 2 ^ 32 else i mod 2 ^ 32)"

fun toInt32 :: "number \<Rightarrow> int" where
  "toInt32 (Fin q) = int32 (trunc q)"
| "toInt32 _ = 0"

fun toUint32 :: "number \<Rightarrow> int" where
  "toUint32 (Fin q) = trunc q mod 2 ^ 32"
| "toUint32 _ = 0"

definition of_int32 :: "int \<Rightarrow> number" where
  "of_int32 i = Fin (of_int i)"

text \<open>
  The bitwise operators \<^verbatim>\<open>&\<close>, \<^verbatim>\<open>|\<close>, \<^verbatim>\<open>~\<close>, \<^verbatim>\<open><<\<close>, \<^verbatim>\<open>>>\<close> and \<^verbatim>\<open>>>>\<close>. The operands go
  through \<^verbatim>\<open>ToInt32\<close> (the left operand of \<^verbatim>\<open>>>>\<close> through \<^verbatim>\<open>ToUint32\<close>), a shift count is
  taken modulo 32, a left shift multiplies and wraps to 32 bits again, and \<^verbatim>\<open>>>\<close> keeps the
  sign (a division rounding down).
\<close>

definition shift_count :: "number \<Rightarrow> nat" where
  "shift_count b = nat (toUint32 b mod 32)"

definition bit_and :: "number \<Rightarrow> number \<Rightarrow> number" where
  "bit_and a b = of_int32 (toInt32 a AND toInt32 b)"

definition bit_or :: "number \<Rightarrow> number \<Rightarrow> number" where
  "bit_or a b = of_int32 (toInt32 a OR toInt32 b)"

definition bit_not :: "number \<Rightarrow> number" where
  "bit_not a = of_int32 (NOT (toInt32 a))"

definition shift_left :: "number \<Rightarrow> number \<Rightarrow> number" where
  "shift_left a b = of_int32 (int32 (toInt32 a * 2 ^ shift_count b))"

definition shift_right :: "number \<Rightarrow> number \<Rightarrow> number" where
  "shift_right a b = of_int32 (toInt32 a div 2 ^ shift_count b)"

definition ushift_right :: "number \<Rightarrow> number \<Rightarrow> number" where
  "ushift_right a b = of_int32 (toUint32 a div 2 ^ shift_count b)"

text \<open>Reading \<^verbatim>\<open>a[i]\<close>: past the end the value is \<^verbatim>\<open>undefined\<close>, which every operator
  applied to it here turns into not-a-number (\<^verbatim>\<open>ToNumber\<close>).\<close>

definition elem_at :: "number list \<Rightarrow> nat \<Rightarrow> number" where
  "elem_at xs i = (if i < length xs then xs ! i else NaN)"

subsection \<open>Characters and digits\<close>

definition is_ws :: "char \<Rightarrow> bool" where
  "is_ws c = ((of_char c :: nat) \<in> {9, 10, 11, 12, 13, 32, 160})"

definition is_line_terminator :: "char \<Rightarrow> bool" where
  "is_line_terminator c = ((of_char c :: nat) \<in> {10, 13})"

definition digit_val :: "char \<Rightarrow> nat option" where
  "digit_val c =
     (let n = (of_char c :: nat) in
      if 48 \<le> n \<and> n \<le> 57 then Some (n - 48)
      else if 97 \<le> n \<and> n \<le> 122 then Some (n - 87)
      else if 65 \<le> n \<and> n \<le> 90 then Some (n - 55)
      else None)"

definition is_digit :: "nat \<Rightarrow> char \<Rightarrow> bool" where
  "is_digit r c = (case digit_val c of Some d \<Rightarrow> d < r | None \<Rightarrow> False)"

definition digit_char :: "nat \<Rightarrow> char" where
  "digit_char d = ''0123456789abcdefghijklmnopqrstuvwxyz'' ! d"

text \<open>The value of a run of digits in radix \<open>r\<close>, most significant digit first.\<close>

fun digits_value :: "nat \<Rightarrow> nat \<Rightarrow> string \<Rightarrow> nat" where
  "digits_value r acc [] = acc"
| "digits_value r acc (c # cs) =
     digits_value r (acc * r + (case digit_val c of Some d \<Rightarrow> d | None \<Rightarrow> 0)) cs"

text \<open>The digits of a natural number in radix \<open>r\<close>, as \<^verbatim>\<open>toString(r)\<close> prints an integer.\<close>

function nat_digits :: "nat \<Rightarrow> nat \<Rightarrow> string" where
  "nat_digits r n =
     (if n < r \<or> r < 2 then [digit_char n]
      else nat_digits r (n div r) @ [digit_char (n mod r)])"
  by pat_completeness auto
termination
  by (relation "measure (\<lambda>(r, n). n)") auto

declare nat_digits.simps [simp del]

subsection \<open>String operations\<close>

text \<open>\<^verbatim>\<open>s.split(sep)\<close> for a one-character separator: an empty string gives one empty piece.\<close>

fun split_on :: "char \<Rightarrow> string \<Rightarrow> string list" where
  "split_on sep [] = [[]]"
| "split_on sep (c # cs) =
     (if c = sep then [] # split_on sep cs
      else (case split_on sep cs of
              [] \<Rightarrow> [[c]]
            | w # ws \<Rightarrow> (c # w) # ws))"

text \<open>\<^verbatim>\<open>a.join(sep)\<close> on strings.\<close>

fun join :: "string \<Rightarrow> string list \<Rightarrow> string" where
  "join sep [] = []"
| "join sep [x] = x"
| "join sep (x # y # ys) = x @ sep @ join sep (y # ys)"

definition padStart :: "nat \<Rightarrow> char \<Rightarrow> string \<Rightarrow> string" where
  "padStart n c s = replicate (n - length s) c @ s"

definition trim :: "string \<Rightarrow> string" where
  "trim s = rev (dropWhile is_ws (rev (dropWhile is_ws s)))"

text \<open>
  \<^verbatim>\<open>Number.prototype.toString(r)\<close>. It is exact for not-a-number, the infinities and the
  integers the calculator prints. For a finite value that is not an integer the digits after
  the point come from long multiplication and stop after 20 of them, where JavaScript prints
  the shortest digits that read back as the same binary64 value (and switches to exponent
  notation for very large and very small magnitudes); no statement below depends on that
  branch.
\<close>

fun frac_digits :: "nat \<Rightarrow> nat \<Rightarrow> real \<Rightarrow> string" where
  "frac_digits r 0 f = []"
| "frac_digits r (Suc k) f =
     (if f = 0 then []
      else (let d = nat \<lfloor>f * of_nat r\<rfloor>
            in digit_char d # frac_digits r k (f * of_nat r - of_nat d)))"

fun numToString :: "nat \<Rightarrow> number \<Rightarrow> string" where
  "numToString r NaN = ''NaN''"
| "numToString r PosInf = ''Infinity''"
| "numToString r NegInf = ''-Infinity''"
| "numToString r (Fin q) =
     (let a = \<bar>q\<bar>; i = nat \<lfloor>a\<rfloor>; f = a - of_nat i
      in (if q < 0 then ''-'' else [])
         @ nat_digits r i
         @ (if f = 0 then [] else CHR ''.'' # frac_digits r 20 f))"

text \<open>\<^verbatim>\<open>a.join(sep)\<close> on an array of numbers: each element is printed in radix 10.\<close>

definition join_numbers :: "string \<Rightarrow> number list \<Rightarrow> string" where
  "join_numbers sep xs = join sep (map (numToString 10) xs)"

text \<open>
  \<^verbatim>\<open>parseInt(s, r)\<close> for a radix \<open>r\<close> from 2 to 36: leading white space is skipped, a sign
  is read, for radix 16 a prefix \<^verbatim>\<open>0x\<close> or \<^verbatim>\<open>0X\<close> is dropped, and the longest run of digits
  of the radix is the value; without a digit the result is not-a-number.
\<close>

definition parseInt :: "string \<Rightarrow> nat \<Rightarrow> number" where
  "parseInt str r =
     (let s0 = dropWhile is_ws str;
          neg = (case s0 of c # _ \<Rightarrow> c = CHR ''-'' | [] \<Rightarrow> False);
          s1 = (case s0 of c # cs \<Rightarrow> if c = CHR ''-'' \<or> c = CHR ''+'' then cs else s0 | [] \<Rightarrow> s0);
          s2 = (if r = 16 \<and> (take 2 s1 = ''0x'' \<or> take 2 s1 = ''0X'') then drop 2 s1 else s1);
          z = takeWhile (is_digit r) s2
      in if z = [] then NaN
         else if neg then Fin (- of_nat (digits_value r 0 z))
         else Fin (of_nat (digits_value r 0 z)))"

text \<open>
  \<^verbatim>\<open>Number(s)\<close> on a string: white space is trimmed at both ends; the empty string is 0;
  then the string must be, as a whole, an infinity, a hexadecimal, octal or binary literal
  without sign, or a signed decimal literal with an optional fraction and exponent;
  anything else is not-a-number.
\<close>

definition scale10 :: "nat \<Rightarrow> int \<Rightarrow> real" where
  "scale10 m e = (if 0 \<le> e then of_nat m * 10 ^ nat e else of_nat m / 10 ^ nat (- e))"

definition exponent_part :: "string \<Rightarrow> int option" where
  "exponent_part s =
     (case s of
        [] \<Rightarrow> Some 0
      | c # t \<Rightarrow>
          if c = CHR ''e'' \<or> c = CHR ''E'' then
            (let neg = (case t of d # _ \<Rightarrow> d = CHR ''-'' | [] \<Rightarrow> False);
                 u = (case t of d # ds \<Rightarrow> if d = CHR ''-'' \<or> d = CHR ''+'' then ds else t
                      | [] \<Rightarrow> t)
             in if u \<noteq> [] \<and> list_all (is_digit 10) u
                then Some (if neg then - int (digits_value 10 0 u) else int (digits_value 10 0 u))
                else None)
          else None)"

definition unsigned_decimal :: "string \<Rightarrow> real option" where
  "unsigned_decimal s =
     (let ipart = takeWhile (is_digit 10) s;
          r1 = dropWhile (is_digit 10) s;
          dot = (case r1 of c # _ \<Rightarrow> c = CHR ''.'' | [] \<Rightarrow> False);
          fpart = (if dot then takeWhile (is_digit 10) (tl r1) else []);
          r2 = (if dot then dropWhile (is_digit 10) (tl r1) else r1)
      in if ipart = [] \<and> fpart = [] then None
         else (case exponent_part r2 of
                 None \<Rightarrow> None
               | Some e \<Rightarrow>
                   Some (scale10 (digits_value 10 0 (ipart @ fpart)) (e - int (length fpart)))))"

definition radix_literal :: "nat \<Rightarrow> string \<Rightarrow> number" where
  "radix_literal r s =
     (if s \<noteq> [] \<and> list_all (is_digit r) s then Fin (of_nat (digits_value r 0 s)) else NaN)"

definition Number :: "string \<Rightarrow> number" where
  "Number str =
     (let s = trim str in
      if s = [] then Fin 0
      else if s = ''Infinity'' \<or> s = ''+Infinity'' then PosInf
      else if s = ''-Infinity'' then NegInf
      else if take 2 s = ''0x'' \<or> take 2 s = ''0X'' then radix_literal 16 (drop 2 s)
      else if take 2 s = ''0o'' \<or> take 2 s = ''0O'' then radix_literal 8 (drop 2 s)
      else if take 2 s = ''0b'' \<or> take 2 s = ''0B'' then radix_literal 2 (drop 2 s)
      else (let neg = (hd s = CHR ''-'');
                u = (if hd s = CHR ''-'' \<or> hd s = CHR ''+'' then tl s else s)
            in case unsigned_decimal u of
                 None \<Rightarrow> NaN
               | Some q \<Rightarrow> Fin (if neg then - q else q)))"

text \<open>
  The test \<^verbatim>\<open>/^\d+$/.test(s)\<close>: the string is one or more decimal digits and nothing else.
\<close>

definition all_digits :: "string \<Rightarrow> bool" where
  "all_digits s = (s \<noteq> [] \<and> list_all (is_digit 10) s)"

text \<open>
  The matches of \<^verbatim>\<open>/.{1,2}/g\<close>, from the left: two characters at a time, one when a single
  character is left; the dot matches every character but a line terminator, at which the
  search moves on.
\<close>

fun match_pairs :: "string \<Rightarrow> string list" where
  "match_pairs [] = []"
| "match_pairs [c] = (if is_line_terminator c then [] else [[c]])"
| "match_pairs (c # d # cs) =
     (if is_line_terminator c then match_pairs (d # cs)
      else if is_line_terminator d then [c] # match_pairs cs
      else [c, d] # match_pairs cs)"

text \<open>
  \<^verbatim>\<open>a[i] = v\<close>: inside the array the element is replaced; past its end JavaScript extends the
  array and leaves holes before \<open>i\<close>, written as not-a-number here (the calculator assigns
  only to index 3 of an array of four).
\<close>

definition set_at :: "number list \<Rightarrow> nat \<Rightarrow> number \<Rightarrow> number list" where
  "set_at xs i v =
     (if i < length xs then xs[i := v] else xs @ replicate (i - length xs) NaN @ [v])"

text \<open>
  \<^verbatim>\<open>2 ** x\<close>: not-a-number at not-a-number, infinite at the positive infinity, 0 at the
  negative one, and the real power of two at a finite exponent; at an integer exponent it is
  written as a power, which computes.
\<close>

fun pow2 :: "number \<Rightarrow> number" where
  "pow2 NaN = NaN"
| "pow2 PosInf = PosInf"
| "pow2 NegInf = Fin 0"
| "pow2 (Fin x) =
     Fin (if x = of_int \<lfloor>x\<rfloor>
          then (if 0 \<le> x then 2 ^ nat \<lfloor>x\<rfloor> else 1 / 2 ^ nat (- \<lfloor>x\<rfloor>))
          else 2 powr x)"

text \<open>
  \<^verbatim>\<open>!x\<close> on a number: true exactly at not-a-number and at zero.
\<close>

definition falsy :: "number \<Rightarrow> bool" where
  "falsy x = (x = NaN \<or> x = Fin 0)"

text \<open>The integer a number holds, for a number that is one.\<close>

fun integer_of :: "number \<Rightarrow> int" where
  "integer_of (Fin q) = trunc q"
| "integer_of _ = 0"

section \<open>The calculator\<close>

text \<open>
  Modelled from the spec: the three messages \<^verbatim>\<open>invalidIP\<close>, \<^verbatim>\<open>invalidMask\<close> and
  \<^verbatim>\<open>invalidIPorMask\<close> that \<^verbatim>\<open>calculator.ts\<close> imports from \<^verbatim>\<open>./config\<close>, a file that is not
  among the sources. An \<^verbatim>\<open>Error\<close> thrown with one of them is the error kind the spec names:
  \<^verbatim>\<open>InvalidAddress\<close>, \<^verbatim>\<open>InvalidMask\<close>, \<^verbatim>\<open>InvalidAddressOrMask\<close>.
\<close>

datatype error = InvalidAddress | InvalidMask | InvalidAddressOrMask

definition invalidIP :: error where
  "invalidIP = InvalidAddress"

definition invalidMask :: error where
  "invalidMask = InvalidMask"

definition invalidIPorMask :: error where
  "invalidIPorMask = InvalidAddressOrMask"

subsection \<open>Methods that do not touch the instance\<close>

definition ipToOctetArray :: "string \<Rightarrow> number list" where
  "ipToOctetArray ip = map Number (split_on CHR ''.'' ip)"

definition validateIp :: "string \<Rightarrow> error \<Rightarrow> error + number list" where
  "validateIp ip message =
     (let ipOctets = ipToOctetArray ip in
      if length ipOctets \<noteq> 4 then Inl message
      else if list_ex (\<lambda>octet. num_less octet (Fin 0) \<or> num_less (Fin 255) octet) ipOctets
      then Inl message
      else Inr ipOctets)"

text \<open>
  \<open>validateMask\<close> compares a number: a fraction between 0 and 32 passes, and so does
  not-a-number, on which both comparisons are false.
\<close>

definition validateMask :: "number \<Rightarrow> error \<Rightarrow> error + number" where
  "validateMask mask' message =
     (if num_less mask' (Fin 0) \<or> num_less (Fin 32) mask' then Inl message else Inr mask')"

definition getNetworkMask :: "number \<Rightarrow> number list" where
  "getNetworkMask prefixLength =
     (let prefix = ushift_right prefixLength (Fin 0);
          networkMask = shift_left (Fin 4294967295) (num_sub (Fin 32) prefix)
      in [bit_and (shift_right networkMask (Fin 24)) (Fin 255),
          bit_and (shift_right networkMask (Fin 16)) (Fin 255),
          bit_and (shift_right networkMask (Fin 8)) (Fin 255),
          bit_and networkMask (Fin 255)])"

definition getNetwork :: "number list \<Rightarrow> number list \<Rightarrow> number list" where
  "getNetwork ip netmask =
     [bit_and (elem_at ip 0) (elem_at netmask 0),
      bit_and (elem_at ip 1) (elem_at netmask 1),
      bit_and (elem_at ip 2) (elem_at netmask 2),
      bit_and (elem_at ip 3) (elem_at netmask 3)]"

definition getInvertedMask :: "number list \<Rightarrow> number list" where
  "getInvertedMask netmask =
     [bit_and (bit_not (elem_at netmask 0)) (Fin 255),
      bit_and (bit_not (elem_at netmask 1)) (Fin 255),
      bit_and (bit_not (elem_at netmask 2)) (Fin 255),
      bit_and (bit_not (elem_at netmask 3)) (Fin 255)]"

definition getBroadcast :: "number list \<Rightarrow> number list \<Rightarrow> number list" where
  "getBroadcast network invertedMask =
     [bit_or (elem_at network 0) (elem_at invertedMask 0),
      bit_or (elem_at network 1) (elem_at invertedMask 1),
      bit_or (elem_at network 2) (elem_at invertedMask 2),
      bit_or (elem_at network 3) (elem_at invertedMask 3)]"

definition getHostMin :: "number list \<Rightarrow> number list" where
  "getHostMin network =
     (let naa = network in set_at naa 3 (num_add (elem_at naa 3) (Fin 1)))"

definition convertToHexa :: "string \<Rightarrow> error + string" where
  "convertToHexa ip =
     (case validateIp ip invalidIP of
        Inl e \<Rightarrow> Inl e
      | Inr ipParts \<Rightarrow>
          Inr (join [] (map (\<lambda>part. padStart 2 CHR ''0'' (numToString 16 part)) ipParts)))"

definition subtractFromHex :: "string \<Rightarrow> string" where
  "subtractFromHex hexDigit =
     (let numVal = num_sub (parseInt hexDigit 16) (Fin 1) in
      if num_less numVal (Fin 0) then ''ff'' else padStart 2 CHR ''0'' (numToString 16 numVal))"

definition hexaToIpArray :: "string \<Rightarrow> number list" where
  "hexaToIpArray number =
     (let hexaArray = match_pairs number in map (\<lambda>hex. parseInt hex 16) hexaArray)"

definition getHostMax :: "number list \<Rightarrow> error + number list" where
  "getHostMax broadcast =
     (case convertToHexa (join_numbers ''.'' broadcast) of
        Inl e \<Rightarrow> Inl e
      | Inr bcaConverted \<Rightarrow>
          (let bcaHostMax = subtractFromHex bcaConverted in Inr (hexaToIpArray bcaHostMax)))"

definition getIpV4Class :: "number list \<Rightarrow> string" where
  "getIpV4Class ip =
     (let firstOctet = elem_at ip 0 in
      if bit_and firstOctet (Fin 128) = Fin 0 then ''A''
      else if bit_and firstOctet (Fin 64) = Fin 0 then ''B''
      else if bit_and firstOctet (Fin 32) = Fin 0 then ''C''
      else if bit_and firstOctet (Fin 16) = Fin 0 then ''D''
      else ''E'')"

text \<open>
  The inner loop of \<^verbatim>\<open>getMaskBitsFromSubnetMask\<close>:
  \<^verbatim>\<open>while (octet & 0x80) { bitCount++; octet <<= 1 }\<close>.
  Its termination is proved below, once the arithmetic of the shift is available.
\<close>

function countLoop :: "number \<Rightarrow> int \<Rightarrow> int" where
  "countLoop octet bitCount =
     (if bit_and octet (Fin 128) \<noteq> Fin 0
      then countLoop (shift_left octet (Fin 1)) (bitCount + 1)
      else bitCount)"
  by pat_completeness auto

subsection \<open>The instance and the methods that change it\<close>

text \<open>
  The two private fields and the eleven public output fields of the class. The prefix length
  \<^verbatim>\<open>maskBits\<close> is a number, as in the class: it can hold a fraction or not-a-number. The
  output field \<^verbatim>\<open>mask\<close> is \<open>mask_field\<close> here.
\<close>

record Calculator =
  ipOctets :: "number list"
  maskBits :: number
  ip :: string
  network :: string
  netmask :: string
  broadcast :: string
  wildcard :: string
  hostMin :: string
  hostMax :: string
  ipv4Class :: string
  maxHosts :: string
  maxNetworks :: string
  mask_field :: string

text \<open>The argument of \<^verbatim>\<open>setMask\<close>, of type \<^verbatim>\<open>number | string\<close>.\<close>

datatype maskArg = MaskNumber number | MaskString string

text \<open>
  A method takes the instance and gives back what it returned or threw, together with the
  instance as the call left it: a field assigned before a \<^verbatim>\<open>throw\<close> stays assigned.
  In \<open>getMaskBitsFromSubnetMask\<close> the test \<^verbatim>\<open>!this.maskBits\<close> holds at 0 and at not-a-number,
  and \<^verbatim>\<open>this.maskBits += bitCount\<close> adds the count of the loop, an integer, as a number.
\<close>

definition getMaskBitsFromSubnetMask :: "number list \<Rightarrow> Calculator \<Rightarrow> number \<times> Calculator" where
  "getMaskBitsFromSubnetMask octets this =
     (if falsy (maskBits this) then
        (let this1 = this\<lparr>maskBits := Fin 0\<rparr>;
             this2 = foldl (\<lambda>t octet.
                        t\<lparr>maskBits := num_add (maskBits t) (Fin (of_int (countLoop octet 0)))\<rparr>)
                      this1 octets
         in (maskBits this2, this2))
      else (maskBits this, this))"

definition getHostNumber :: "number list \<Rightarrow> Calculator \<Rightarrow> number \<times> Calculator" where
  "getHostNumber octets this =
     (case getMaskBitsFromSubnetMask octets this of
        (bits, this1) \<Rightarrow> (num_sub (pow2 (num_sub (Fin 32) bits)) (Fin 2), this1))"

definition getNetworkNumber :: "number list \<Rightarrow> Calculator \<Rightarrow> number \<times> Calculator" where
  "getNetworkNumber octets this =
     (case getMaskBitsFromSubnetMask octets this of
        (bits, this1) \<Rightarrow> (pow2 bits, this1))"

definition setIp :: "string \<Rightarrow> Calculator \<Rightarrow> (error + unit) \<times> Calculator" where
  "setIp str this =
     (case validateIp str invalidIP of
        Inl e \<Rightarrow> (Inl e, this)
      | Inr octets \<Rightarrow> (Inr (), this\<lparr>ipOctets := octets\<rparr>))"

definition setMask :: "maskArg \<Rightarrow> Calculator \<Rightarrow> (error + unit) \<times> Calculator" where
  "setMask arg this =
     (case (case arg of
              MaskNumber n \<Rightarrow> (Inr n, this)
            | MaskString str \<Rightarrow>
                if all_digits str then (Inr (parseInt str 10), this)
                else (case validateIp str invalidMask of
                        Inl e \<Rightarrow> (Inl e, this)
                      | Inr octets \<Rightarrow>
                          (case getMaskBitsFromSubnetMask octets this of
                             (bits, this1) \<Rightarrow> (Inr bits, this1)))) of
        (Inl e, this1) \<Rightarrow> (Inl e, this1)
      | (Inr maskNum, this1) \<Rightarrow>
          (case validateMask maskNum invalidMask of
             Inl e \<Rightarrow> (Inl e, this1)
           | Inr v \<Rightarrow> (Inr (), this1\<lparr>maskBits := v\<rparr>)))"

definition calculate :: "Calculator \<Rightarrow> (error + unit) \<times> Calculator" where
  "calculate this =
     (let ip' = ipOctets this; mask' = maskBits this in
      if length ip' = 0 \<or> mask' = Fin 0 then (Inl invalidIPorMask, this)
      else
        (let netmask' = getNetworkMask mask';
             wildcard' = getInvertedMask netmask';
             network' = getNetwork ip' netmask';
             broadcast' = getBroadcast network' wildcard';
             hostMin' = getHostMin network'
         in case getHostMax broadcast' of
              Inl e \<Rightarrow> (Inl e, this)
            | Inr hostMax' \<Rightarrow>
                (let ipv4Class' = getIpV4Class ip' in
                 case getHostNumber netmask' this of
                   (numHosts, this1) \<Rightarrow>
                     (case getNetworkNumber netmask' this1 of
                        (numNetworks, this2) \<Rightarrow>
                          (Inr (),
                           this2\<lparr>ip := join_numbers ''.'' ip',
                                 network := join_numbers ''.'' network',
                                 ipv4Class := ipv4Class',
                                 maxHosts := numToString 10 numHosts,
                                 maxNetworks := numToString 10 numNetworks,
                                 wildcard := join_numbers ''.'' wildcard',
                                 hostMin := join_numbers ''.'' hostMin',
                                 hostMax := join_numbers ''.'' hostMax',
                                 netmask := join_numbers ''.'' netmask',
                                 broadcast := join_numbers ''.'' broadcast',
                                 mask_field := numToString 10 mask'\<rparr>)))))"

text \<open>The field initialisers of the class, and the constructor with its two optional options.\<close>

definition initial :: Calculator where
  "initial =
     \<lparr>ipOctets = [], maskBits = Fin 0, ip = [], network = [], netmask = [], broadcast = [],
      wildcard = [], hostMin = [], hostMax = [], ipv4Class = [], maxHosts = [],
      maxNetworks = [], mask_field = []\<rparr>"

definition new_Calculator :: "string option \<Rightarrow> maskArg option \<Rightarrow> error + Calculator" where
  "new_Calculator ip_option mask_option =
     (let ip' = (case ip_option of None \<Rightarrow> ''127.0.0.1'' | Some v \<Rightarrow> v);
          mask' = (case mask_option of None \<Rightarrow> MaskNumber (Fin 32) | Some v \<Rightarrow> v)
      in case setIp ip' initial of
           (Inl e, this1) \<Rightarrow> Inl e
         | (Inr u, this1) \<Rightarrow>
             (case setMask mask' this1 of
                (Inl e, this2) \<Rightarrow> Inl e
              | (Inr u, this2) \<Rightarrow> Inr this2))"

subsection \<open>The maximum host address as the specification words it\<close>


text \<open>An octet: a number that is an integer from 0 to 255.\<close>

definition is_octet :: "number \<Rightarrow> bool" where
  "is_octet x = (case x of Fin q \<Rightarrow> 0 \<le> q \<and> q \<le> 255 \<and> of_int \<lfloor>q\<rfloor> = q | _ \<Rightarrow> False)"

text \<open>The four bytes of a 32-bit value, most significant first.\<close>

definition bytes_of :: "int \<Rightarrow> number list" where
  "bytes_of v =
     [Fin (of_int (v div 16777216 mod 256)), Fin (of_int (v div 65536 mod 256)),
      Fin (of_int (v div 256 mod 256)), Fin (of_int (v mod 256))]"

text \<open>The 32-bit value of four octets, and the octets of an instance's broadcast address.\<close>

definition octets_value :: "number list \<Rightarrow> int" where
  "octets_value bs = foldl (\<lambda>acc b. acc * 256 + integer_of b) 0 bs"

definition broadcast_octets :: "Calculator \<Rightarrow> number list" where
  "broadcast_octets this =
     (let netmask' = getNetworkMask (maskBits this)
      in getBroadcast (getNetwork (ipOctets this) netmask') (getInvertedMask netmask'))"

section \<open>Arithmetic of the 32-bit operators\<close>

lemma trunc_of_int [simp]: "trunc (of_int i) = i"
  by (simp add: trunc_def)

lemma trunc_numeral [simp]: "trunc (numeral n) = numeral n" "trunc 0 = 0" "trunc 1 = 1"
  by (simp_all add: trunc_def)

lemma int32_mod_256: "int32 i mod 256 = i mod 256"
proof -
  have d: "(256::int) dvd 2 ^ 32" by simp
  have a: "i mod 2 ^ 32 mod 256 = i mod 256"
    using d by (rule mod_mod_cancel)
  have "i mod 2 ^ 32 - 2 ^ 32 = i mod 2 ^ 32 + 256 * (- 16777216)" by simp
  then have b: "(i mod 2 ^ 32 - 2 ^ 32) mod 256 = i mod 2 ^ 32 mod 256"
    by (simp only: mod_mult_self2)
  show ?thesis
    unfolding int32_def using a b by (simp only: if_distrib [of "\<lambda>x. x mod 256"] if_cancel)
qed

lemma toInt32_of_int32 [simp]: "toInt32 (of_int32 i) = int32 i"
  by (simp add: of_int32_def)

lemma and_128_nonzero: "(v::int) AND 128 \<noteq> 0 \<Longrightarrow> 128 \<le> v mod 256"
proof -
  assume "v AND 128 \<noteq> 0"
  then have "v AND 2 ^ 7 \<noteq> 0" by simp
  then have "bit v 7" by (simp only: and_exp_eq_0_iff_not_bit) simp
  then have "odd (v div 2 ^ 7)" by (simp add: bit_iff_odd)
  then have o: "odd (v div 128)" by simp
  have "v mod (128 * 2) = 128 * (v div 128 mod 2) + v mod 128"
    by (rule zmod_zmult2_eq) simp
  moreover have "v div 128 mod 2 = 1" using o by presburger
  moreover have "0 \<le> v mod 128" by simp
  ultimately show ?thesis by simp
qed

lemma double_mod_256: "(128::int) \<le> v mod 256 \<Longrightarrow> (v * 2) mod 256 < v mod 256"
proof -
  assume h: "128 \<le> v mod 256"
  define w where "w = v mod 256"
  have w: "128 \<le> w" "w < 256" using h by (simp_all add: w_def)
  have "(v * 2) mod 256 = (w * 2) mod 256"
    unfolding w_def by (rule mod_mult_left_eq [symmetric])
  also have "\<dots> = (w * 2 - 256) mod 256"
    by (rule minus_mod_self2 [symmetric])
  also have "\<dots> = w * 2 - 256"
    by (rule mod_pos_pos_trivial) (use w in simp_all)
  finally show ?thesis using w by (simp add: w_def)
qed

text \<open>
  The loop of \<open>countLoop\<close> ends: while bit 7 of the octet is set, the low byte of the octet
  gets smaller with each shift.
\<close>

termination countLoop
proof (relation "measure (\<lambda>(octet, bitCount). nat (toInt32 octet mod 256))")
  show "wf (measure (\<lambda>(octet, bitCount). nat (toInt32 octet mod 256)))" by simp
next
  fix octet :: number and bitCount :: int
  assume "bit_and octet (Fin 128) \<noteq> Fin 0"
  then have "toInt32 octet AND 128 \<noteq> 0"
    by (simp add: bit_and_def of_int32_def int32_def)
  then have "128 \<le> toInt32 octet mod 256" by (rule and_128_nonzero)
  then have "(toInt32 octet * 2) mod 256 < toInt32 octet mod 256" by (rule double_mod_256)
  moreover have "toInt32 (shift_left octet (Fin 1)) mod 256 = (toInt32 octet * 2) mod 256"
    by (simp add: shift_left_def shift_count_def int32_mod_256)
  ultimately show "((shift_left octet (Fin 1), bitCount + 1), (octet, bitCount))
      \<in> measure (\<lambda>(octet, bitCount). nat (toInt32 octet mod 256))"
    by simp
qed

declare countLoop.simps [simp del]

text \<open>At every finite exponent \<open>pow2\<close> is the real power of two.\<close>

lemma pow2_powr: "pow2 (Fin x) = Fin (2 powr x)"
proof (cases "x = of_int \<lfloor>x\<rfloor>")
  case True
  define n where "n = \<lfloor>x\<rfloor>"
  have x: "x = of_int n" using True by (simp add: n_def)
  show ?thesis
  proof (cases "0 \<le> n")
    case True
    then have "x = real (nat n)" using x by simp
    then have "2 powr x = 2 ^ nat n" by (simp only: powr_realpow zero_less_numeral)
    with True x show ?thesis by simp
  next
    case False
    then have "x = - real (nat (- n))" using x by simp
    then have "2 powr x = 1 / 2 ^ nat (- n)"
      by (simp only: powr_minus_divide powr_realpow zero_less_numeral)
    with False x show ?thesis by simp
  qed
next
  case False
  then show ?thesis by simp
qed

section \<open>Evaluation at concrete inputs\<close>

text \<open>
  The rules below unfold the definitions at literals only, so that a concrete call is
  computed by rewriting.
\<close>

lemma trunc_neg_numeral [simp]: "trunc (- numeral n) = - numeral n" "trunc (- 1) = - 1"
  by (simp_all add: trunc_def)

lemmas int32_numerals =
  int32_def [of "numeral n"] int32_def [of "- numeral n"] int32_def [of 0] int32_def [of 1]
  int32_def [of "- 1"] for n

lemmas nat_digits_numerals =
  nat_digits.simps [of "numeral r" "numeral n"] nat_digits.simps [of "numeral r" 0]
  nat_digits.simps [of "numeral r" 1] nat_digits.simps [of "numeral r" "Suc 0"] for r n

lemmas countLoop_Fin = countLoop.simps [of "Fin q"] for q

lemmas ev = Number_def trim_def is_ws_def unsigned_decimal_def is_digit_def digit_val_def
  radix_literal_def exponent_part_def scale10_def parseInt_def nat_digits_numerals digit_char_def
  bit_and_def bit_or_def bit_not_def shift_left_def shift_right_def ushift_right_def shift_count_def
  of_int32_def int32_numerals padStart_def join_numbers_def Let_def
  all_digits_def is_line_terminator_def set_at_def falsy_def elem_at_def num_sub_def
  invalidIP_def invalidMask_def invalidIPorMask_def ipToOctetArray_def validateIp_def validateMask_def
  getNetworkMask_def getNetwork_def getInvertedMask_def getBroadcast_def getHostMin_def convertToHexa_def
  subtractFromHex_def hexaToIpArray_def getHostMax_def getIpV4Class_def countLoop_Fin
  getMaskBitsFromSubnetMask_def getHostNumber_def getNetworkNumber_def setIp_def setMask_def
  calculate_def initial_def new_Calculator_def

section \<open>Octets through the bitwise operators\<close>

lemma of_int32_eq_iff [simp]: "of_int32 a = of_int32 b \<longleftrightarrow> a = b"
  by (simp add: of_int32_def)

lemma of_int32_eq_Fin_0 [simp]: "of_int32 a = Fin 0 \<longleftrightarrow> a = 0"
  by (simp add: of_int32_def)

lemma int32_small: "- 2147483648 \<le> i \<Longrightarrow> i < 2147483648 \<Longrightarrow> int32 i = i"
proof -
  assume lo: "- 2147483648 \<le> i" and hi: "i < 2147483648"
  show ?thesis
  proof (cases "0 \<le> i")
    case True
    then have "i mod 4294967296 = i" using hi by (simp add: mod_pos_pos_trivial)
    then show ?thesis using hi by (simp add: int32_def)
  next
    case False
    have "i mod 4294967296 = (i + 4294967296) mod 4294967296" by simp
    also have "\<dots> = i + 4294967296"
      by (rule mod_pos_pos_trivial) (use lo False in simp_all)
    finally have m: "i mod 4294967296 = i + 4294967296" .
    show ?thesis using lo False by (simp add: int32_def m)
  qed
qed

lemma toInt32_byte: "0 \<le> k \<Longrightarrow> k \<le> 255 \<Longrightarrow> toInt32 (Fin (of_int k)) = k"
  by (simp add: int32_small)

lemma and_255_range: "0 \<le> (x::int) AND 255 \<and> x AND 255 \<le> 255"
  by (simp add: AND_upper2)

lemma and_byte_range: "0 \<le> k \<Longrightarrow> k \<le> 255 \<Longrightarrow> 0 \<le> (x::int) AND k \<and> x AND k \<le> 255"
  using AND_upper2 [of k x] by simp

lemma or_byte_range:
  "0 \<le> (a::int) \<Longrightarrow> a \<le> 255 \<Longrightarrow> 0 \<le> b \<Longrightarrow> b \<le> 255 \<Longrightarrow> 0 \<le> a OR b \<and> a OR b \<le> 255"
  using OR_upper [of a 8 b] by simp

lemma is_octet_of_int [simp]: "is_octet (Fin (of_int k)) \<longleftrightarrow> 0 \<le> k \<and> k \<le> 255"
  by (simp add: is_octet_def)

lemma is_octet_of_int32 [simp]: "is_octet (of_int32 k) \<longleftrightarrow> 0 \<le> k \<and> k \<le> 255"
  by (simp add: of_int32_def)

lemma is_octetE:
  assumes "is_octet x"
  obtains k where "0 \<le> k" and "k \<le> 255" and "x = Fin (of_int k)"
proof (cases x)
  case (Fin q)
  with assms have q: "0 \<le> q" "q \<le> 255" and "\<exists>n. q = of_int n"
    by (simp_all add: is_octet_def)
  then obtain n where n: "q = of_int n" by blast
  with q have "0 \<le> n" "n \<le> 255" by simp_all
  moreover have "x = Fin (of_int n)" using Fin n by simp
  ultimately show ?thesis by (rule that)
qed (use assms in \<open>simp_all add: is_octet_def\<close>)

lemma toInt32_octet:
  "is_octet x \<Longrightarrow> 0 \<le> toInt32 x \<and> toInt32 x \<le> 255 \<and> x = Fin (of_int (toInt32 x))"
  by (erule is_octetE) (simp add: int32_small)

lemma is_octet_bit_and_255 [simp]: "is_octet (bit_and a (Fin 255))"
  by (simp add: bit_and_def int32_small and_255_range)

lemma is_octet_bit_and: "is_octet b \<Longrightarrow> is_octet (bit_and a b)"
  using toInt32_octet [of b] and_byte_range [of "toInt32 b" "toInt32 a"]
  by (simp add: bit_and_def)

lemma is_octet_bit_or: "is_octet a \<Longrightarrow> is_octet b \<Longrightarrow> is_octet (bit_or a b)"
  using toInt32_octet [of a] toInt32_octet [of b] or_byte_range [of "toInt32 a" "toInt32 b"]
  by (simp add: bit_or_def)

lemma elem_at_simps [simp]:
  "elem_at [a, b, c, d] 0 = a" "elem_at [a, b, c, d] 1 = b"
  "elem_at [a, b, c, d] 2 = c" "elem_at [a, b, c, d] 3 = d"
  "elem_at [a, b, c, d] (Suc 0) = b"
  by (simp_all add: elem_at_def)

lemma getNetworkMask_octets:
  "\<exists>a b c d. getNetworkMask p = [a, b, c, d] \<and> is_octet a \<and> is_octet b \<and> is_octet c \<and> is_octet d"
  by (simp add: getNetworkMask_def Let_def)

lemma getInvertedMask_octets:
  "\<exists>a b c d. getInvertedMask m = [a, b, c, d] \<and> is_octet a \<and> is_octet b \<and> is_octet c \<and> is_octet d"
  by (simp add: getInvertedMask_def)

lemma broadcast_octets_shape:
  "\<exists>a b c d. broadcast_octets this = [a, b, c, d] \<and> is_octet a \<and> is_octet b \<and> is_octet c \<and> is_octet d"
proof -
  obtain m0 m1 m2 m3 where m: "getNetworkMask (maskBits this) = [m0, m1, m2, m3]"
    and mo: "is_octet m0" "is_octet m1" "is_octet m2" "is_octet m3"
    using getNetworkMask_octets by blast
  obtain w0 w1 w2 w3 where w: "getInvertedMask [m0, m1, m2, m3] = [w0, w1, w2, w3]"
    and wo: "is_octet w0" "is_octet w1" "is_octet w2" "is_octet w3"
    using getInvertedMask_octets by blast
  show ?thesis
    by (simp add: broadcast_octets_def m w getBroadcast_def getNetwork_def
        is_octet_bit_or is_octet_bit_and mo wo)
qed

section \<open>Digits, printing and parsing\<close>

lemma digit_val_digit_char: "d < 16 \<Longrightarrow> digit_val (digit_char d) = Some d"
proof -
  assume "d < 16"
  then have "d = 0 \<or> d = 1 \<or> d = 2 \<or> d = 3 \<or> d = 4 \<or> d = 5 \<or> d = 6 \<or> d = 7 \<or>
      d = 8 \<or> d = 9 \<or> d = 10 \<or> d = 11 \<or> d = 12 \<or> d = 13 \<or> d = 14 \<or> d = 15"
    by arith
  then show ?thesis
    by (elim disjE) (simp_all add: digit_char_def digit_val_def)
qed

lemma is_digit_digit_char: "d < r \<Longrightarrow> r \<le> 16 \<Longrightarrow> is_digit r (digit_char d)"
  by (simp add: is_digit_def digit_val_digit_char)

lemma is_digit_range:
  "is_digit r c \<Longrightarrow> r \<le> 16 \<Longrightarrow>
     (48 \<le> (of_char c :: nat) \<and> (of_char c :: nat) \<le> 57) \<or>
     (97 \<le> (of_char c :: nat) \<and> (of_char c :: nat) \<le> 102) \<or>
     (65 \<le> (of_char c :: nat) \<and> (of_char c :: nat) \<le> 70)"
  by (auto simp: is_digit_def digit_val_def Let_def split: if_splits)

lemma is_digit_10_range:
  "is_digit 10 c \<Longrightarrow> 48 \<le> (of_char c :: nat) \<and> (of_char c :: nat) \<le> 57"
  by (auto simp: is_digit_def digit_val_def Let_def split: if_splits)

lemma is_digit_not_ws: "is_digit r c \<Longrightarrow> r \<le> 16 \<Longrightarrow> \<not> is_ws c"
  by (drule (1) is_digit_range) (auto simp: is_ws_def)

lemma is_digit_not_line_terminator: "is_digit r c \<Longrightarrow> r \<le> 16 \<Longrightarrow> \<not> is_line_terminator c"
  by (drule (1) is_digit_range) (auto simp: is_line_terminator_def)

lemma is_digit_not_special:
  "is_digit r c \<Longrightarrow> r \<le> 16 \<Longrightarrow>
     c \<noteq> CHR ''.'' \<and> c \<noteq> CHR ''-'' \<and> c \<noteq> CHR ''+'' \<and> c \<noteq> CHR ''x'' \<and> c \<noteq> CHR ''X''"
  by (drule (1) is_digit_range) auto

lemma is_digit_10_not_letter:
  "is_digit 10 c \<Longrightarrow>
     c \<noteq> CHR ''I'' \<and> c \<noteq> CHR ''o'' \<and> c \<noteq> CHR ''O'' \<and> c \<noteq> CHR ''b'' \<and> c \<noteq> CHR ''B'' \<and>
     c \<noteq> CHR ''e'' \<and> c \<noteq> CHR ''E''"
  by (drule is_digit_10_range) auto

lemma nat_digits_nonempty: "nat_digits r n \<noteq> []"
  by (subst nat_digits.simps) simp

lemma nat_digits_all_digits:
  "2 \<le> r \<Longrightarrow> r \<le> 16 \<Longrightarrow> list_all (is_digit r) (nat_digits r n)"
proof (induction r n rule: nat_digits.induct)
  case (1 r n)
  show ?case
  proof (cases "n < r \<or> r < 2")
    case True
    with "1.prems" have "n < r" by simp
    then show ?thesis
      using "1.prems" by (subst nat_digits.simps) (simp add: is_digit_digit_char)
  next
    case False
    moreover have "n mod r < r" using "1.prems" by simp
    ultimately show ?thesis
      using "1.prems" "1.IH" by (subst nat_digits.simps) (simp add: is_digit_digit_char)
  qed
qed

lemma digits_value_append:
  "digits_value r acc (xs @ ys) = digits_value r (digits_value r acc xs) ys"
  by (induction xs arbitrary: acc) simp_all

lemma digits_value_nat_digits:
  "2 \<le> r \<Longrightarrow> r \<le> 16 \<Longrightarrow> digits_value r 0 (nat_digits r n) = n"
proof (induction r n rule: nat_digits.induct)
  case (1 r n)
  show ?case
  proof (cases "n < r \<or> r < 2")
    case True
    with "1.prems" have "n < 16" by simp
    then show ?thesis
      using True by (subst nat_digits.simps) (simp add: digit_val_digit_char)
  next
    case False
    have "n mod r < 16" using "1.prems" by (meson mod_less_divisor less_le_trans zero_less_numeral less_le_trans [of 0 2 r])
    then show ?thesis
      using False "1.prems" "1.IH"
      by (subst nat_digits.simps) (simp add: digits_value_append digit_val_digit_char)
  qed
qed

lemma dropWhile_ws_digits:
  "s \<noteq> [] \<Longrightarrow> list_all (is_digit r) s \<Longrightarrow> r \<le> 16 \<Longrightarrow> dropWhile is_ws s = s"
  using is_digit_not_ws [of r] by (cases s) auto

lemma trim_digits:
  assumes "s \<noteq> []" and "list_all (is_digit r) s" and "r \<le> 16"
  shows "trim s = s"
proof -
  have "rev s \<noteq> []" and "list_all (is_digit r) (rev s)"
    using assms by simp_all
  then have "dropWhile is_ws (rev s) = rev s"
    using assms(3) by (rule dropWhile_ws_digits)
  then show ?thesis
    using assms by (simp add: trim_def dropWhile_ws_digits)
qed

lemma digits_hd:
  "s \<noteq> [] \<Longrightarrow> list_all (is_digit r) s \<Longrightarrow> is_digit r (hd s)"
  by (cases s) simp_all

lemma digits_take_2:
  "list_all (is_digit r) s \<Longrightarrow> take 2 s = [a, b] \<Longrightarrow> is_digit r b"
  by (cases s; cases "tl s") auto

lemma unsigned_decimal_digits:
  assumes "s \<noteq> []" and "list_all (is_digit 10) s"
  shows "unsigned_decimal s = Some (of_nat (digits_value 10 0 s))"
proof -
  have t: "takeWhile (is_digit 10) s = s"
    using assms(2) by (simp add: takeWhile_eq_all_conv list_all_iff)
  have d: "dropWhile (is_digit 10) s = []"
    using assms(2) by (simp add: dropWhile_eq_Nil_conv list_all_iff)
  show ?thesis
    using assms(1) by (simp add: unsigned_decimal_def t d exponent_part_def scale10_def)
qed

lemma Number_digits:
  assumes "s \<noteq> []" and "list_all (is_digit 10) s"
  shows "Number s = Fin (of_nat (digits_value 10 0 s))"
proof -
  have tr: "trim s = s" using assms by (rule trim_digits) simp
  have h: "is_digit 10 (hd s)" using assms by (rule digits_hd)
  have n1: "s \<noteq> ''Infinity''" "s \<noteq> ''+Infinity''" "s \<noteq> ''-Infinity''"
    using h is_digit_10_not_letter [of "hd s"] is_digit_not_special [of 10 "hd s"] by auto
  have ne: "take 2 s \<noteq> [a, b]" if "\<not> is_digit 10 b" for a b
    using digits_take_2 [OF assms(2), of a b] that by blast
  have n2: "take 2 s \<noteq> ''0x''" "take 2 s \<noteq> ''0X''" "take 2 s \<noteq> ''0o''" "take 2 s \<noteq> ''0O''"
    "take 2 s \<noteq> ''0b''" "take 2 s \<noteq> ''0B''"
    by (rule ne, simp add: is_digit_def digit_val_def)+
  have n3: "hd s \<noteq> CHR ''-''" "hd s \<noteq> CHR ''+''"
    using h is_digit_not_special [of 10 "hd s"] by auto
  show ?thesis
    unfolding Number_def Let_def tr
    using assms(1) n1 n2 n3 by (simp add: unsigned_decimal_digits [OF assms])
qed

lemma split_on_no_sep: "sep \<notin> set x \<Longrightarrow> split_on sep x = [x]"
  by (induction x) auto

lemma split_on_append:
  "sep \<notin> set x \<Longrightarrow> split_on sep (x @ sep # y) = x # split_on sep y"
  by (induction x) auto

lemma numToString_int: "0 \<le> k \<Longrightarrow> numToString r (Fin (of_int k)) = nat_digits r (nat k)"
  by (simp add: Let_def)

lemma dec_no_dot: "CHR ''.'' \<notin> set (nat_digits 10 n)"
proof
  assume "CHR ''.'' \<in> set (nat_digits 10 n)"
  moreover have "list_all (is_digit 10) (nat_digits 10 n)"
    by (rule nat_digits_all_digits) simp_all
  ultimately have "is_digit 10 CHR ''.''" by (simp add: list_all_iff)
  then show False by (simp add: is_digit_def digit_val_def)
qed

lemma Number_nat_digits: "Number (nat_digits 10 n) = Fin (of_nat n)"
proof -
  have "Number (nat_digits 10 n) = Fin (of_nat (digits_value 10 0 (nat_digits 10 n)))"
    by (rule Number_digits) (simp_all add: nat_digits_nonempty nat_digits_all_digits)
  then show ?thesis by (simp add: digits_value_nat_digits)
qed

lemma Number_numToString_octet: "is_octet x \<Longrightarrow> Number (numToString 10 x) = x"
  by (erule is_octetE) (simp add: numToString_int Number_nat_digits)

lemma numToString_octet_no_dot: "is_octet x \<Longrightarrow> CHR ''.'' \<notin> set (numToString 10 x)"
  by (erule is_octetE) (simp add: numToString_int dec_no_dot)

lemma octet_in_range: "is_octet x \<Longrightarrow> \<not> num_less x (Fin 0) \<and> \<not> num_less (Fin 255) x"
  by (erule is_octetE) simp

lemma ipToOctetArray_join:
  assumes "is_octet a" "is_octet b" "is_octet c" "is_octet d"
  shows "ipToOctetArray (join_numbers ''.'' [a, b, c, d]) = [a, b, c, d]"
  using assms
  by (simp add: ipToOctetArray_def join_numbers_def split_on_append split_on_no_sep
      numToString_octet_no_dot Number_numToString_octet)

lemma validateIp_join:
  assumes "is_octet a" "is_octet b" "is_octet c" "is_octet d"
  shows "validateIp (join_numbers ''.'' [a, b, c, d]) message = Inr [a, b, c, d]"
  using assms by (simp add: validateIp_def ipToOctetArray_join octet_in_range)

lemma getHostMax_octets:
  assumes "is_octet a" "is_octet b" "is_octet c" "is_octet d"
  shows "getHostMax [a, b, c, d] =
    Inr (hexaToIpArray (subtractFromHex
      (join [] (map (\<lambda>part. padStart 2 CHR ''0'' (numToString 16 part)) [a, b, c, d]))))"
  using assms by (simp add: getHostMax_def convertToHexa_def validateIp_join)

lemma getHostMax_broadcast_octets:
  "\<exists>r. getHostMax (broadcast_octets this) = Inr r"
proof -
  obtain a b c d where "broadcast_octets this = [a, b, c, d]"
    and "is_octet a" "is_octet b" "is_octet c" "is_octet d"
    using broadcast_octets_shape by blast
  then show ?thesis by (simp add: getHostMax_octets)
qed

section \<open>The calls inside calculate and setMask\<close>

lemma getMaskBits_truthy:
  "\<not> falsy (maskBits this) \<Longrightarrow> getMaskBitsFromSubnetMask octets this = (maskBits this, this)"
  by (simp add: getMaskBitsFromSubnetMask_def)

lemma count_fold_shape:
  "\<exists>v. foldl (\<lambda>t octet. t\<lparr>maskBits := num_add (maskBits t) (Fin (of_int (countLoop octet 0)))\<rparr>)
         (t0::Calculator) octets = t0\<lparr>maskBits := v\<rparr>"
proof (induction octets arbitrary: t0)
  case Nil
  show ?case by (rule exI [of _ "maskBits t0"]) simp
next
  case (Cons x xs)
  let ?t1 = "t0\<lparr>maskBits := num_add (maskBits t0) (Fin (of_int (countLoop x 0)))\<rparr>"
  obtain v where "foldl (\<lambda>t octet. t\<lparr>maskBits := num_add (maskBits t) (Fin (of_int (countLoop octet 0)))\<rparr>)
      ?t1 xs = ?t1\<lparr>maskBits := v\<rparr>"
    using Cons.IH [of ?t1] by blast
  then show ?case by auto
qed

text \<open>
  Whatever is stored, \<open>getMaskBitsFromSubnetMask\<close> touches no field but the prefix length, and
  so do \<open>getHostNumber\<close> and \<open>getNetworkNumber\<close>, which call it.
\<close>

lemma getMaskBits_shape:
  "\<exists>bits v. getMaskBitsFromSubnetMask octets this = (bits, this\<lparr>maskBits := v\<rparr>)"
proof (cases "falsy (maskBits this)")
  case True
  obtain v where "foldl (\<lambda>t octet. t\<lparr>maskBits := num_add (maskBits t) (Fin (of_int (countLoop octet 0)))\<rparr>)
      (this\<lparr>maskBits := Fin 0\<rparr>) octets = this\<lparr>maskBits := Fin 0\<rparr>\<lparr>maskBits := v\<rparr>"
    using count_fold_shape [of "this\<lparr>maskBits := Fin 0\<rparr>" octets] by blast
  with True show ?thesis by (auto simp: getMaskBitsFromSubnetMask_def Let_def)
next
  case False
  have "(maskBits this, this) = (maskBits this, this\<lparr>maskBits := maskBits this\<rparr>)" by simp
  then have e: "\<exists>bits v. (maskBits this, this) = (bits, this\<lparr>maskBits := v\<rparr>)" by blast
  from False have "getMaskBitsFromSubnetMask octets this = (maskBits this, this)"
    by (rule getMaskBits_truthy)
  with e show ?thesis by (simp only:)
qed

lemma getHostNumber_shape:
  "\<exists>n v. getHostNumber octets this = (n, this\<lparr>maskBits := v\<rparr>)"
  using getMaskBits_shape [of octets this] by (auto simp: getHostNumber_def)

lemma getNetworkNumber_shape:
  "\<exists>n v. getNetworkNumber octets this = (n, this\<lparr>maskBits := v\<rparr>)"
  using getMaskBits_shape [of octets this] by (auto simp: getNetworkNumber_def)

lemma counts_in_calculate:
  "\<exists>h n v w. getHostNumber octets this = (h, this\<lparr>maskBits := v\<rparr>) \<and>
     getNetworkNumber octets (this\<lparr>maskBits := v\<rparr>) = (n, this\<lparr>maskBits := w\<rparr>)"
proof -
  obtain h v where h: "getHostNumber octets this = (h, this\<lparr>maskBits := v\<rparr>)"
    using getHostNumber_shape by blast
  obtain n w where "getNetworkNumber octets (this\<lparr>maskBits := v\<rparr>) =
      (n, this\<lparr>maskBits := v\<rparr>\<lparr>maskBits := w\<rparr>)"
    using getNetworkNumber_shape by blast
  then have "getNetworkNumber octets (this\<lparr>maskBits := v\<rparr>) = (n, this\<lparr>maskBits := w\<rparr>)"
    by simp
  with h show ?thesis by blast
qed

lemma getHostMax_in_calculate:
  "\<exists>r. getHostMax
      (getBroadcast
        (getNetwork (ipOctets (this::Calculator)) (getNetworkMask (maskBits this)))
        (getInvertedMask (getNetworkMask (maskBits this)))) = Inr r"
  using getHostMax_broadcast_octets [of this] by (simp add: broadcast_octets_def Let_def)

lemma bit_and_128_nonzero:
  "bit_and octet (Fin 128) \<noteq> Fin 0 \<Longrightarrow> 128 \<le> toInt32 octet mod 256"
proof -
  assume "bit_and octet (Fin 128) \<noteq> Fin 0"
  then have "toInt32 octet AND 128 \<noteq> 0"
    by (simp add: bit_and_def int32_small)
  then show ?thesis by (rule and_128_nonzero)
qed

lemma toInt32_shift_left_1:
  "toInt32 (shift_left octet (Fin 1)) mod 256 = (toInt32 octet * 2) mod 256"
  by (simp add: shift_left_def shift_count_def int32_mod_256)

lemma countLoop_lower: "bitCount \<le> countLoop octet bitCount"
proof (induction octet bitCount rule: countLoop.induct)
  case (1 octet bitCount)
  show ?case
  proof (cases "bit_and octet (Fin 128) \<noteq> Fin 0")
    case True
    with "1.IH" have "bitCount + 1 \<le> countLoop (shift_left octet (Fin 1)) (bitCount + 1)"
      by simp
    with True show ?thesis by (subst countLoop.simps) simp
  next
    case False
    then show ?thesis by (subst countLoop.simps) simp
  qed
qed

lemma countLoop_upper_aux:
  "2 ^ j dvd toInt32 octet mod 256 \<Longrightarrow> j \<le> 8 \<Longrightarrow>
     countLoop octet bitCount \<le> bitCount + 8 - int j"
proof (induction octet bitCount arbitrary: j rule: countLoop.induct)
  case (1 octet bitCount)
  show ?case
  proof (cases "bit_and octet (Fin 128) \<noteq> Fin 0")
    case True
    then have big: "128 \<le> toInt32 octet mod 256" by (rule bit_and_128_nonzero)
    have j8: "j \<noteq> 8"
    proof
      assume "j = 8"
      with "1.prems" have "256 dvd toInt32 octet mod 256" by simp
      then have "toInt32 octet mod 256 = 0"
        by (simp add: dvd_eq_mod_eq_0)
      with big show False by simp
    qed
    then have j: "Suc j \<le> 8" using "1.prems" by simp
    have "(2::int) ^ Suc j dvd toInt32 octet mod 256 * 2"
      using "1.prems"(1) by simp
    moreover have "(2::int) ^ Suc j dvd 2 ^ 8"
      using j by (rule le_imp_power_dvd)
    ultimately have "(2::int) ^ Suc j dvd (toInt32 octet mod 256 * 2) mod 2 ^ 8"
      by (rule dvd_mod)
    then have "(2::int) ^ Suc j dvd (toInt32 octet * 2) mod 256"
      by (simp add: mod_mult_left_eq)
    then have d: "2 ^ Suc j dvd toInt32 (shift_left octet (Fin 1)) mod 256"
      by (simp only: toInt32_shift_left_1)
    have "countLoop (shift_left octet (Fin 1)) (bitCount + 1)
        \<le> bitCount + 1 + 8 - int (Suc j)"
      using True d j by (rule "1.IH")
    with True show ?thesis by (subst countLoop.simps) simp
  next
    case False
    then show ?thesis using "1.prems" by (subst countLoop.simps) simp
  qed
qed

lemma countLoop_range: "0 \<le> countLoop octet 0 \<and> countLoop octet 0 \<le> 8"
  using countLoop_lower [of 0 octet] countLoop_upper_aux [of 0 octet 0] by simp

lemma validateIp_length: "validateIp str message = Inr octets \<Longrightarrow> length octets = 4"
  by (simp add: validateIp_def Let_def split: if_splits)

lemma length_4E:
  assumes "length xs = 4"
  obtains a b c d where "xs = [a, b, c, d]"
  using assms by (auto simp: length_Suc_conv numeral_eq_Suc)

lemma getMaskBits_falsy:
  assumes "falsy (maskBits this)"
  shows "getMaskBitsFromSubnetMask [a, b, c, d] this =
    (Fin (of_int (countLoop a 0 + countLoop b 0 + countLoop c 0 + countLoop d 0)),
     this\<lparr>maskBits :=
       Fin (of_int (countLoop a 0 + countLoop b 0 + countLoop c 0 + countLoop d 0))\<rparr>)"
  using assms by (simp add: getMaskBitsFromSubnetMask_def Let_def)

section \<open>The network mask and the fields calculate stores\<close>

lemma prefix_cases:
  assumes "1 \<le> (P::int)" and "P \<le> 32"
  shows "P = 1 \<or> P = 2 \<or> P = 3 \<or> P = 4 \<or> P = 5 \<or> P = 6 \<or> P = 7 \<or> P = 8 \<or>
    P = 9 \<or> P = 10 \<or> P = 11 \<or> P = 12 \<or> P = 13 \<or> P = 14 \<or> P = 15 \<or> P = 16 \<or>
    P = 17 \<or> P = 18 \<or> P = 19 \<or> P = 20 \<or> P = 21 \<or> P = 22 \<or> P = 23 \<or> P = 24 \<or>
    P = 25 \<or> P = 26 \<or> P = 27 \<or> P = 28 \<or> P = 29 \<or> P = 30 \<or> P = 31 \<or> P = 32"
  using assms by arith

lemma octets_value_getNetworkMask:
  assumes "1 \<le> P" and "P \<le> 32"
  shows "octets_value (getNetworkMask (Fin (of_int P))) = 2 ^ 32 - 2 ^ nat (32 - P)"
  using prefix_cases [OF assms]
  by (elim disjE)
    (simp_all add: octets_value_def getNetworkMask_def Let_def bit_and_def shift_left_def
      shift_right_def ushift_right_def shift_count_def of_int32_def int32_numerals num_sub_def)

lemma bit_ones_then_zeros:
  assumes "k \<le> 32"
  shows "bit ((2::int) ^ 32 - 2 ^ k) i \<longleftrightarrow> k \<le> i \<and> i < 32"
proof -
  have "(2::int) ^ 32 = 2 ^ k * 2 ^ (32 - k)"
    using assms by (simp flip: power_add)
  then have "(2::int) ^ 32 - 2 ^ k = push_bit k (mask (32 - k))"
    by (simp add: push_bit_eq_mult mask_eq_exp_minus_1 algebra_simps)
  then show ?thesis
    using assms by (auto simp: bit_push_bit_iff bit_mask_iff)
qed

lemma calculate_fields:
  assumes "ipOctets this \<noteq> []" and "maskBits this \<noteq> Fin 0"
  shows "fst (calculate this) = Inr ()"
    and "netmask (snd (calculate this)) =
      join_numbers ''.'' (getNetworkMask (maskBits this))"
    and "broadcast (snd (calculate this)) = join_numbers ''.'' (broadcast_octets this)"
    and "hostMin (snd (calculate this)) =
      join_numbers ''.''
        (getHostMin (getNetwork (ipOctets this) (getNetworkMask (maskBits this))))"
    and "getHostMax (broadcast_octets this) = Inr r \<Longrightarrow>
      hostMax (snd (calculate this)) = join_numbers ''.'' r"
proof -
  obtain r' where r: "getHostMax
      (getBroadcast (getNetwork (ipOctets this) (getNetworkMask (maskBits this)))
        (getInvertedMask (getNetworkMask (maskBits this)))) = Inr r'"
    using getHostMax_in_calculate by blast
  obtain h n v w
    where "getHostNumber (getNetworkMask (maskBits this)) this = (h, this\<lparr>maskBits := v\<rparr>)"
      and "getNetworkNumber (getNetworkMask (maskBits this)) (this\<lparr>maskBits := v\<rparr>) =
        (n, this\<lparr>maskBits := w\<rparr>)"
    using counts_in_calculate by blast
  note c = calculate_def Let_def r this
  show "fst (calculate this) = Inr ()" using assms by (simp add: c)
  show "netmask (snd (calculate this)) =
      join_numbers ''.'' (getNetworkMask (maskBits this))"
    using assms by (simp add: c)
  show "broadcast (snd (calculate this)) = join_numbers ''.'' (broadcast_octets this)"
    using assms by (simp add: c broadcast_octets_def)
  show "hostMin (snd (calculate this)) =
      join_numbers ''.''
        (getHostMin (getNetwork (ipOctets this) (getNetworkMask (maskBits this))))"
    using assms by (simp add: c)
  show "hostMax (snd (calculate this)) = join_numbers ''.'' r"
    if "getHostMax (broadcast_octets this) = Inr r"
    using assms that r by (simp add: c broadcast_octets_def)
qed

lemma getNetworkMask_32: "getNetworkMask (Fin 32) = [Fin 255, Fin 255, Fin 255, Fin 255]"
  by (simp add: getNetworkMask_def Let_def bit_and_def shift_left_def shift_right_def
      ushift_right_def shift_count_def of_int32_def int32_numerals num_sub_def)

text \<open>A fractional prefix length gives the network mask of its integer part.\<close>

lemma getNetworkMask_fraction:
  "0 \<le> q \<Longrightarrow> getNetworkMask (Fin q) = getNetworkMask (Fin (of_int \<lfloor>q\<rfloor>))"
  by (simp add: getNetworkMask_def ushift_right_def trunc_def)

lemma nat_digits_256: "nat_digits 10 256 = ''256''"
  by (simp add: nat_digits_numerals digit_char_def)

lemma numToString_256: "numToString 10 (Fin 256) = ''256''"
  by (simp add: Let_def nat_digits_256)

lemma Number_256: "Number ''256'' = Fin 256"
  by (simp add: ev)

section \<open>The hexadecimal round trip of getHostMax\<close>

lemma digit_char_0: "digit_char 0 = CHR ''0''"
  by (simp add: digit_char_def)

lemma hex_pair:
  assumes "n < 256"
  shows "padStart 2 CHR ''0'' (nat_digits 16 n) = [digit_char (n div 16), digit_char (n mod 16)]"
proof (cases "n < 16")
  case True
  then have "nat_digits 16 n = [digit_char n]" by (subst nat_digits.simps) simp
  with True show ?thesis by (simp add: padStart_def digit_char_0)
next
  case False
  have "n div 16 < 16" using assms by simp
  then have "nat_digits 16 (n div 16) = [digit_char (n div 16)]"
    by (subst nat_digits.simps) simp
  with False have "nat_digits 16 n = [digit_char (n div 16), digit_char (n mod 16)]"
    by (subst nat_digits.simps) simp
  then show ?thesis by (simp add: padStart_def)
qed

lemma digits_value_pair:
  assumes "k < 256"
  shows "digits_value 16 acc (digit_char (k div 16) # digit_char (k mod 16) # rest) =
    digits_value 16 (acc * 256 + k) rest"
proof -
  have d: "k div 16 < 16" "k mod 16 < 16" using assms by simp_all
  have "(acc * 16 + k div 16) * 16 + k mod 16 = acc * 256 + (k div 16 * 16 + k mod 16)"
    by (simp add: algebra_simps)
  also have "\<dots> = acc * 256 + k" by simp
  finally show ?thesis using d by (simp add: digit_val_digit_char algebra_simps)
qed

lemma parseInt_hex_digits:
  assumes "s \<noteq> []" and "list_all (is_digit 16) s"
  shows "parseInt s 16 = Fin (of_nat (digits_value 16 0 s))"
proof -
  have dw: "dropWhile is_ws s = s" using assms by (rule dropWhile_ws_digits) simp
  have h: "is_digit 16 (hd s)" using assms by (rule digits_hd)
  then have sg: "hd s \<noteq> CHR ''-''" "hd s \<noteq> CHR ''+''"
    using is_digit_not_special [of 16 "hd s"] by simp_all
  have ne: "take 2 s \<noteq> [a, b]" if "\<not> is_digit 16 b" for a b
    using digits_take_2 [OF assms(2), of a b] that by blast
  have px: "take 2 s \<noteq> ''0x''" "take 2 s \<noteq> ''0X''"
    by (rule ne, simp add: is_digit_def digit_val_def)+
  have tw: "takeWhile (is_digit 16) s = s"
    using assms(2) by (simp add: takeWhile_eq_all_conv list_all_iff)
  have neg: "(case s of c # _ \<Rightarrow> c = CHR ''-'' | [] \<Rightarrow> False) = False"
    using sg assms(1) by (cases s) simp_all
  have s1: "(case s of c # cs \<Rightarrow> if c = CHR ''-'' \<or> c = CHR ''+'' then cs else s | [] \<Rightarrow> s) = s"
    using sg assms(1) by (cases s) simp_all
  show ?thesis
    unfolding parseInt_def Let_def dw neg s1
    using px assms(1) by (simp add: tw)
qed

lemma parseInt_hex_pair:
  assumes "k < 256"
  shows "parseInt [digit_char (k div 16), digit_char (k mod 16)] 16 = Fin (of_nat k)"
proof -
  have d: "k div 16 < 16" "k mod 16 < 16" using assms by simp_all
  have "parseInt [digit_char (k div 16), digit_char (k mod 16)] 16 =
      Fin (of_nat (digits_value 16 0 [digit_char (k div 16), digit_char (k mod 16)]))"
    by (rule parseInt_hex_digits) (simp_all add: is_digit_digit_char d)
  then show ?thesis using assms by (simp only: digits_value_pair) simp
qed

lemma trunc_of_nat [simp]: "trunc (of_nat n) = int n"
  using trunc_of_int [of "int n"] by simp

lemma is_octet_natE:
  assumes "is_octet x"
  obtains n where "n < 256" and "x = Fin (of_nat n)"
    and "padStart 2 CHR ''0'' (numToString 16 x) = [digit_char (n div 16), digit_char (n mod 16)]"
proof -
  from assms obtain k where k: "0 \<le> k" "k \<le> 255" "x = Fin (of_int k)" by (rule is_octetE)
  have "nat k < 256" using k by simp
  moreover have "x = Fin (of_nat (nat k))" using k by simp
  moreover have "padStart 2 CHR ''0'' (numToString 16 x) =
      [digit_char (nat k div 16), digit_char (nat k mod 16)]"
    using k \<open>nat k < 256\<close> by (simp only: numToString_int hex_pair)
  ultimately show ?thesis by (rule that)
qed

lemma mod_256_div_16: "(n::nat) mod 256 div 16 = n div 16 mod 16"
proof -
  have "n mod (16 * 16) = 16 * (n div 16 mod 16) + n mod 16"
    by (rule mod_mult2_eq)
  then have "n mod 256 = n mod 16 + (n div 16 mod 16) * 16" by simp
  then show ?thesis by simp
qed

lemma mod_256_mod_16: "(n::nat) mod 256 mod 16 = n mod 16"
  by (rule mod_mod_cancel) simp

lemma nat_digits_low:
  assumes "16 \<le> n" and "n < 256"
  shows "nat_digits 16 n = [digit_char (n div 16), digit_char (n mod 16)]"
proof -
  have "n div 16 < 16" using assms(2) by simp
  then have "nat_digits 16 (n div 16) = [digit_char (n div 16)]"
    by (subst nat_digits.simps) simp
  with assms(1) show ?thesis by (subst nat_digits.simps) simp
qed

lemma nat_digits_two_more:
  assumes "256 \<le> n"
  shows "nat_digits 16 n =
    nat_digits 16 (n div 256) @ [digit_char (n mod 256 div 16), digit_char (n mod 256 mod 16)]"
proof -
  have a: "16 \<le> n" using assms by simp
  have b: "16 \<le> n div 16" using assms by simp
  have c: "n div 16 div 16 = n div 256" by (simp add: div_mult2_eq [symmetric])
  have "nat_digits 16 n = nat_digits 16 (n div 16) @ [digit_char (n mod 16)]"
    using a by (subst nat_digits.simps) simp
  also have "nat_digits 16 (n div 16) =
      nat_digits 16 (n div 16 div 16) @ [digit_char (n div 16 mod 16)]"
    using b by (subst nat_digits.simps) simp
  finally show ?thesis
    by (simp add: c mod_256_div_16 mod_256_mod_16)
qed

lemma nat_digits_8:
  assumes "268435456 \<le> W" and "W < 4294967296"
  shows "nat_digits 16 W =
    [digit_char (W div 16777216 div 16), digit_char (W div 16777216 mod 16),
     digit_char (W div 65536 mod 256 div 16), digit_char (W div 65536 mod 256 mod 16),
     digit_char (W div 256 mod 256 div 16), digit_char (W div 256 mod 256 mod 16),
     digit_char (W mod 256 div 16), digit_char (W mod 256 mod 16)]"
proof -
  have g0: "256 \<le> W" using assms(1) by simp
  have g1: "256 \<le> W div 256" using assms(1) by simp
  have g2: "256 \<le> W div 65536" using assms(1) by simp
  have g3: "16 \<le> W div 16777216" "W div 16777216 < 256" using assms by simp_all
  have d1: "W div 256 div 256 = W div 65536" by (simp add: div_mult2_eq [symmetric])
  have d2: "W div 65536 div 256 = W div 16777216" by (simp add: div_mult2_eq [symmetric])
  show ?thesis
    by (simp add: nat_digits_two_more [OF g0] nat_digits_two_more [OF g1]
        nat_digits_two_more [OF g2, unfolded d2] d1 nat_digits_low [OF g3])
qed

lemma digit_char_not_line_terminator: "d < 16 \<Longrightarrow> \<not> is_line_terminator (digit_char d)"
  using is_digit_digit_char [of d 16] is_digit_not_line_terminator [of 16 "digit_char d"]
  by simp

lemma hexaToIpArray_pairs:
  assumes "k1 < 256" "k2 < 256" "k3 < 256" "k4 < 256"
  shows "hexaToIpArray
      [digit_char (k1 div 16), digit_char (k1 mod 16), digit_char (k2 div 16), digit_char (k2 mod 16),
       digit_char (k3 div 16), digit_char (k3 mod 16), digit_char (k4 div 16), digit_char (k4 mod 16)] =
    [Fin (of_nat k1), Fin (of_nat k2), Fin (of_nat k3), Fin (of_nat k4)]"
proof -
  have "k1 div 16 < 16" "k1 mod 16 < 16" "k2 div 16 < 16" "k2 mod 16 < 16"
    "k3 div 16 < 16" "k3 mod 16 < 16" "k4 div 16 < 16" "k4 mod 16 < 16"
    using assms by simp_all
  then show ?thesis
    using assms
    by (simp add: hexaToIpArray_def digit_char_not_line_terminator parseInt_hex_pair)
qed

lemma numToString_nat: "numToString r (Fin (of_nat n)) = nat_digits r n"
  using numToString_int [of "int n" r] by simp

lemma num_sub_one:
  assumes "1 \<le> (V::nat)"
  shows "num_sub (Fin (of_nat V)) (Fin 1) = Fin (of_nat (V - 1))"
proof -
  have "(of_nat (V - 1) :: real) = of_nat V - of_nat 1"
    using assms by (rule of_nat_diff)
  then show ?thesis by (simp add: num_sub_def)
qed

lemma subtractFromHex_digits:
  assumes "s \<noteq> []" and "list_all (is_digit 16) s" and "256 < digits_value 16 0 s"
  shows "subtractFromHex s = nat_digits 16 (digits_value 16 0 s - 1)"
proof -
  define V where "V = digits_value 16 0 s"
  have V: "256 < V" using assms(3) by (simp add: V_def)
  have p: "parseInt s 16 = Fin (of_nat V)"
    unfolding V_def using assms(1,2) by (rule parseInt_hex_digits)
  have "1 \<le> V" using V by simp
  then have n: "num_sub (parseInt s 16) (Fin 1) = Fin (of_nat (V - 1))"
    unfolding p by (rule num_sub_one)
  have ge: "256 \<le> V - 1" using V by simp
  have "2 \<le> length (nat_digits 16 (V - 1))"
    by (subst nat_digits_two_more [OF ge]) simp
  then have pad: "padStart 2 CHR ''0'' (nat_digits 16 (V - 1)) = nat_digits 16 (V - 1)"
    by (simp add: padStart_def)
  have "subtractFromHex s = nat_digits 16 (V - 1)"
    unfolding subtractFromHex_def Let_def n numToString_nat pad by simp
  then show ?thesis by (simp only: V_def)
qed

lemma octets_nat_bound:
  assumes "(na::nat) < 256" "nb < 256" "nc < 256" "nd < 256"
  shows "((na * 256 + nb) * 256 + nc) * 256 + nd < 4294967296"
proof -
  have "na \<le> 255" "nb \<le> 255" "nc \<le> 255" "nd \<le> 255" using assms by simp_all
  then have "((na * 256 + nb) * 256 + nc) * 256 + nd \<le> ((255 * 256 + 255) * 256 + 255) * 256 + 255"
    by (intro add_mono mult_le_mono) simp_all
  then show ?thesis by simp
qed

lemma bytes_of_nat:
  assumes "W < 4294967296"
  shows "bytes_of (int W) =
    [Fin (of_nat (W div 16777216)), Fin (of_nat (W div 65536 mod 256)),
     Fin (of_nat (W div 256 mod 256)), Fin (of_nat (W mod 256))]"
proof -
  have "W div 16777216 < 256" using assms by simp
  then have m: "W div 16777216 mod 256 = W div 16777216" by simp
  have "int W div 16777216 mod 256 = int (W div 16777216 mod 256)"
    "int W div 65536 mod 256 = int (W div 65536 mod 256)"
    "int W div 256 mod 256 = int (W div 256 mod 256)"
    "int W mod 256 = int (W mod 256)"
    by (simp_all add: zdiv_int zmod_int)
  then show ?thesis
    unfolding bytes_of_def by (simp only: of_int_of_nat_eq m)
qed

lemma getHostMax_decrement:
  assumes "is_octet a" "is_octet b" "is_octet c" "is_octet d"
    and "268435456 < octets_value [a, b, c, d]"
  shows "getHostMax [a, b, c, d] = Inr (bytes_of (octets_value [a, b, c, d] - 1))"
proof -
  obtain na where na: "na < 256" "a = Fin (of_nat na)"
    "padStart 2 CHR ''0'' (numToString 16 a) = [digit_char (na div 16), digit_char (na mod 16)]"
    using assms(1) by (rule is_octet_natE)
  obtain nb where nb: "nb < 256" "b = Fin (of_nat nb)"
    "padStart 2 CHR ''0'' (numToString 16 b) = [digit_char (nb div 16), digit_char (nb mod 16)]"
    using assms(2) by (rule is_octet_natE)
  obtain nc where nc: "nc < 256" "c = Fin (of_nat nc)"
    "padStart 2 CHR ''0'' (numToString 16 c) = [digit_char (nc div 16), digit_char (nc mod 16)]"
    using assms(3) by (rule is_octet_natE)
  obtain nd where nd: "nd < 256" "d = Fin (of_nat nd)"
    "padStart 2 CHR ''0'' (numToString 16 d) = [digit_char (nd div 16), digit_char (nd mod 16)]"
    using assms(4) by (rule is_octet_natE)
  define s where "s = [digit_char (na div 16), digit_char (na mod 16), digit_char (nb div 16),
    digit_char (nb mod 16), digit_char (nc div 16), digit_char (nc mod 16),
    digit_char (nd div 16), digit_char (nd mod 16)]"
  define V where "V = ((na * 256 + nb) * 256 + nc) * 256 + nd"
  have hexa: "join [] (map (\<lambda>part. padStart 2 CHR ''0'' (numToString 16 part)) [a, b, c, d]) = s"
    unfolding s_def by (simp only: list.map join.simps na(3) nb(3) nc(3) nd(3)) simp
  have ne: "s \<noteq> []" by (simp add: s_def)
  have dig: "list_all (is_digit 16) s"
    unfolding s_def using na(1) nb(1) nc(1) nd(1) by (simp add: is_digit_digit_char)
  have val: "digits_value 16 0 s = V"
    unfolding s_def V_def using na(1) nb(1) nc(1) nd(1) by (simp only: digits_value_pair) simp
  have ov: "octets_value [a, b, c, d] = int V"
    unfolding V_def by (simp add: octets_value_def na(2) nb(2) nc(2) nd(2))
  have big: "268435456 < V" using assms(5) unfolding ov by simp
  have lt: "V < 4294967296" unfolding V_def using na(1) nb(1) nc(1) nd(1) by (rule octets_nat_bound)
  define W where "W = V - 1"
  have W: "268435456 \<le> W" "W < 4294967296" using big lt by (simp_all add: W_def)
  have "256 < digits_value 16 0 s" using big by (simp add: val)
  with ne dig have "subtractFromHex s = nat_digits 16 (digits_value 16 0 s - 1)"
    by (rule subtractFromHex_digits)
  then have sub: "subtractFromHex s = nat_digits 16 W" by (simp only: val W_def)
  have bytes: "W div 16777216 < 256" "W div 65536 mod 256 < 256" "W div 256 mod 256 < 256"
    "W mod 256 < 256"
    using W(2) by simp_all
  have "getHostMax [a, b, c, d] = Inr (hexaToIpArray (subtractFromHex s))"
    using assms(1-4) by (simp only: getHostMax_octets hexa)
  also have "hexaToIpArray (subtractFromHex s) =
      [Fin (of_nat (W div 16777216)), Fin (of_nat (W div 65536 mod 256)),
       Fin (of_nat (W div 256 mod 256)), Fin (of_nat (W mod 256))]"
    unfolding sub nat_digits_8 [OF W] by (rule hexaToIpArray_pairs [OF bytes])
  also have "\<dots> = bytes_of (int W)"
    using W(2) by (rule bytes_of_nat [symmetric])
  also have "int W = octets_value [a, b, c, d] - 1"
    using big unfolding ov W_def by simp
  finally show ?thesis .
qed

lemma mod_256_le: "(x::int) mod 256 \<le> 255"
  using pos_mod_bound [of 256 x] by simp

lemma bytes_of_octets:
  "\<exists>a b c d. bytes_of v = [a, b, c, d] \<and> is_octet a \<and> is_octet b \<and> is_octet c \<and> is_octet d"
  by (simp add: bytes_of_def mod_256_le)








section \<open>What the setters accept\<close>

text \<open>
  \<open>setIp\<close> returns exactly when the string splits into four segments and none of them parses
  to a number below 0 or above 255; a segment that parses to not-a-number passes both
  comparisons. Anything else is thrown as \<^verbatim>\<open>InvalidAddress\<close>, with the instance untouched.
  In \<open>setMask\<close> a dotted mask is counted only while the stored prefix length is 0 or
  not-a-number.
\<close>

lemma accepted_octet_cases:
  "\<not> num_less x (Fin 0) \<and> \<not> num_less (Fin 255) x \<longleftrightarrow>
     x = NaN \<or> (\<exists>q. x = Fin q \<and> 0 \<le> q \<and> q \<le> 255)"
  by (cases x) auto

lemma setIp_returns_iff:
  "fst (setIp str this) = Inr () \<longleftrightarrow>
     length (ipToOctetArray str) = 4 \<and>
     list_all (\<lambda>octet. \<not> num_less octet (Fin 0) \<and> \<not> num_less (Fin 255) octet)
       (ipToOctetArray str)"
  by (auto simp: setIp_def validateIp_def Let_def list_ex_iff list_all_iff)

lemma setIp_throws_InvalidAddress:
  "fst (setIp str this) \<noteq> Inr () \<Longrightarrow> setIp str this = (Inl InvalidAddress, this)"
  by (auto simp: setIp_def validateIp_def Let_def invalidIP_def split: if_splits)

lemma setIp_stores:
  assumes "setIp str this = (Inr (), this')"
  shows "ipOctets this' = ipToOctetArray str \<and> length (ipOctets this') = 4 \<and>
    list_all (\<lambda>octet. \<not> num_less octet (Fin 0) \<and> \<not> num_less (Fin 255) octet) (ipOctets this')"
  using assms
  by (auto simp: setIp_def validateIp_def Let_def list_ex_iff list_all_iff split: if_splits)

lemma parseInt_all_digits:
  assumes "all_digits s"
  shows "parseInt s 10 = Fin (of_nat (digits_value 10 0 s))"
proof -
  have ne: "s \<noteq> []" and dg: "list_all (is_digit 10) s"
    using assms by (simp_all add: all_digits_def)
  have dw: "dropWhile is_ws s = s" using ne dg by (rule dropWhile_ws_digits) simp
  have h: "is_digit 10 (hd s)" using ne dg by (rule digits_hd)
  then have sg: "hd s \<noteq> CHR ''-''" "hd s \<noteq> CHR ''+''"
    using is_digit_not_special [of 10 "hd s"] by simp_all
  have tw: "takeWhile (is_digit 10) s = s"
    using dg by (simp add: takeWhile_eq_all_conv list_all_iff)
  have neg: "(case s of c # _ \<Rightarrow> c = CHR ''-'' | [] \<Rightarrow> False) = False"
    using sg ne by (cases s) simp_all
  have s1: "(case s of c # cs \<Rightarrow> if c = CHR ''-'' \<or> c = CHR ''+'' then cs else s | [] \<Rightarrow> s) = s"
    using sg ne by (cases s) simp_all
  show ?thesis
    unfolding parseInt_def Let_def dw neg s1
    using ne by (simp add: tw)
qed

lemma setMask_dotted_unset:
  assumes "falsy (maskBits this)" and "\<not> all_digits str"
    and "validateIp str invalidMask = Inr [a, b, c, d]"
  shows "setMask (MaskString str) this =
    (Inr (), this\<lparr>maskBits :=
       Fin (of_int (countLoop a 0 + countLoop b 0 + countLoop c 0 + countLoop d 0))\<rparr>)"
proof -
  have "0 \<le> countLoop a 0 + countLoop b 0 + countLoop c 0 + countLoop d 0"
    and "countLoop a 0 + countLoop b 0 + countLoop c 0 + countLoop d 0 \<le> 32"
    using countLoop_range [of a] countLoop_range [of b]
      countLoop_range [of c] countLoop_range [of d] by simp_all
  then show ?thesis
    using assms by (simp add: setMask_def getMaskBits_falsy validateMask_def)
qed

lemma setMask_dotted_set:
  assumes "\<not> falsy (maskBits this)"
    and "\<not> num_less (maskBits this) (Fin 0)" and "\<not> num_less (Fin 32) (maskBits this)"
    and "\<not> all_digits str" and "validateIp str invalidMask = Inr octets"
  shows "setMask (MaskString str) this = (Inr (), this)"
  using assms by (simp add: setMask_def getMaskBits_truthy validateMask_def)

lemma countLoop_contiguous_octets:
  "map (\<lambda>x. countLoop x 0)
     [Fin 255, Fin 254, Fin 252, Fin 248, Fin 240, Fin 224, Fin 192, Fin 128, Fin 0] =
   [8, 7, 6, 5, 4, 3, 2, 1, 0]"
  by (simp add: countLoop_Fin bit_and_def shift_left_def shift_count_def of_int32_def
      int32_numerals)

section \<open>Repeated calls of calculate\<close>

text \<open>
  With four octets stored and a prefix length that is neither 0 nor not-a-number,
  \<^verbatim>\<open>calculate()\<close> returns, leaves the stored octets and the prefix length as they were, and a
  second call right after it returns the same and leaves the same instance.
\<close>

lemma calculate_repeat:
  assumes "length (ipOctets this) = 4" and "maskBits this \<noteq> Fin 0" and "maskBits this \<noteq> NaN"
  shows "fst (calculate this) = Inr () \<and>
         ipOctets (snd (calculate this)) = ipOctets this \<and>
         maskBits (snd (calculate this)) = maskBits this \<and>
         calculate (snd (calculate this)) = calculate this"
proof -
  obtain r where r: "getHostMax
      (getBroadcast (getNetwork (ipOctets this) (getNetworkMask (maskBits this)))
        (getInvertedMask (getNetworkMask (maskBits this)))) = Inr r"
    using getHostMax_in_calculate by blast
  have ne: "ipOctets this \<noteq> []" using assms(1) by auto
  have t: "\<not> falsy (maskBits this)" using assms(2,3) by (simp add: falsy_def)
  show ?thesis
    using ne assms(2) t
    by (simp add: calculate_def Let_def r getHostNumber_def getNetworkNumber_def
        getMaskBits_truthy)
qed

text \<open>
  With a not-a-number prefix length stored (\<open>validateMask\<close> lets it through: both of its
  comparisons are false on it), \<^verbatim>\<open>calculate()\<close> passes its guard, computes the network mask
  \<^verbatim>\<open>255.255.255.255\<close>, and \<open>getHostNumber\<close> has \<open>getMaskBitsFromSubnetMask\<close> count that mask
  and store 32: the stored prefix length changes, and the output field \<^verbatim>\<open>mask\<close> is \<^verbatim>\<open>NaN\<close> after
  the first call and \<^verbatim>\<open>32\<close> after the second.
\<close>

lemma calculate_stores_counted_prefix:
  assumes "ipOctets this \<noteq> []" and "maskBits this = NaN"
  shows "fst (calculate this) = Inr () \<and>
         maskBits (snd (calculate this)) = Fin 32 \<and>
         mask_field (snd (calculate this)) = ''NaN'' \<and>
         mask_field (snd (calculate (snd (calculate this)))) = ''32''"
proof -
  have nm: "getNetworkMask NaN = [Fin 255, Fin 255, Fin 255, Fin 255]"
    by (simp add: getNetworkMask_def Let_def bit_and_def shift_left_def shift_right_def
        ushift_right_def shift_count_def of_int32_def int32_numerals num_sub_def)
  have "\<exists>r. getHostMax
      (getBroadcast (getNetwork (ipOctets this) [Fin 255, Fin 255, Fin 255, Fin 255])
        (getInvertedMask [Fin 255, Fin 255, Fin 255, Fin 255])) = Inr r"
    using getHostMax_in_calculate [of this] by (simp only: assms(2) nm)
  then obtain r where r: "getHostMax
      (getBroadcast (getNetwork (ipOctets this) [Fin 255, Fin 255, Fin 255, Fin 255])
        (getInvertedMask [Fin 255, Fin 255, Fin 255, Fin 255])) = Inr r"
    by blast
  have cnt: "countLoop (Fin 255) 0 = 8"
    by (simp add: countLoop_Fin bit_and_def shift_left_def shift_count_def of_int32_def
        int32_numerals)
  have g1: "getMaskBitsFromSubnetMask [Fin 255, Fin 255, Fin 255, Fin 255] this =
      (Fin 32, this\<lparr>maskBits := Fin 32\<rparr>)"
    using assms(2) by (simp add: getMaskBits_falsy falsy_def cnt)
  have g2: "getMaskBitsFromSubnetMask [Fin 255, Fin 255, Fin 255, Fin 255]
      (this\<lparr>maskBits := Fin 32\<rparr>) = (Fin 32, this\<lparr>maskBits := Fin 32\<rparr>)"
    by (simp add: getMaskBits_truthy falsy_def)
  have first: "fst (calculate this) = Inr ()"
    "maskBits (snd (calculate this)) = Fin 32"
    "mask_field (snd (calculate this)) = ''NaN''"
    "ipOctets (snd (calculate this)) = ipOctets this"
    using assms
    by (simp_all add: calculate_def Let_def r nm getHostNumber_def getNetworkNumber_def g1 g2
        del: pow2.simps)
  have "length (ipOctets (snd (calculate this))) \<noteq> 0" using assms(1) first(4) by simp
  moreover have "maskBits (snd (calculate this)) \<noteq> Fin 0" by (simp add: first(2))
  ultimately have "mask_field (snd (calculate (snd (calculate this)))) =
      numToString 10 (maskBits (snd (calculate this)))"
    using getHostMax_in_calculate [of "snd (calculate this)"]
      counts_in_calculate [of "getNetworkMask (maskBits (snd (calculate this)))" "snd (calculate this)"]
    by (auto simp: calculate_def [of "snd (calculate this)"] Let_def)
  also have "\<dots> = ''32''"
    by (simp add: first(2) Let_def nat_digits_numerals digit_char_def)
  finally show ?thesis using first by simp
qed

text \<open>
  Above \<open>0x10000000\<close> the decremented broadcast value still has eight hexadecimal digits,
  and \<^verbatim>\<open>hostMax\<close> is the four octets of the broadcast value minus 1.
\<close>

lemma hostMax_full_width:
  assumes "ipOctets this \<noteq> []" and "maskBits this \<noteq> Fin 0"
    and "268435456 < octets_value (broadcast_octets this)"
  shows "broadcast (snd (calculate this)) = join_numbers ''.'' (broadcast_octets this) \<and>
         hostMax (snd (calculate this)) =
           join_numbers ''.'' (bytes_of (octets_value (broadcast_octets this) - 1)) \<and>
         ipToOctetArray (hostMax (snd (calculate this))) =
           bytes_of (octets_value (broadcast_octets this) - 1)"
proof -
  obtain a b c d where bo: "broadcast_octets this = [a, b, c, d]"
    and o: "is_octet a" "is_octet b" "is_octet c" "is_octet d"
    using broadcast_octets_shape by blast
  have "268435456 < octets_value [a, b, c, d]" using assms(3) by (simp only: bo)
  with o have "getHostMax [a, b, c, d] = Inr (bytes_of (octets_value [a, b, c, d] - 1))"
    by (rule getHostMax_decrement)
  then have g: "getHostMax (broadcast_octets this) =
      Inr (bytes_of (octets_value (broadcast_octets this) - 1))"
    by (simp only: bo)
  have hm: "hostMax (snd (calculate this)) =
      join_numbers ''.'' (bytes_of (octets_value (broadcast_octets this) - 1))"
    using assms(1,2) g by (rule calculate_fields)
  have bc: "broadcast (snd (calculate this)) = join_numbers ''.'' (broadcast_octets this)"
    using assms(1,2) by (rule calculate_fields)
  obtain p q r s where bts: "bytes_of (octets_value (broadcast_octets this) - 1) = [p, q, r, s]"
    and "is_octet p" "is_octet q" "is_octet r" "is_octet s"
    using bytes_of_octets by blast
  then have "ipToOctetArray (join_numbers ''.'' [p, q, r, s]) = [p, q, r, s]"
    by (simp only: ipToOctetArray_join)
  then have "ipToOctetArray (hostMax (snd (calculate this))) =
      bytes_of (octets_value (broadcast_octets this) - 1)"
    by (simp only: hm bts)
  with hm bc show ?thesis by simp
qed

section \<open>What the code does at the inputs the claims name\<close>

text \<open>
  C1 (the code departs from the claim). The claim: \<^verbatim>\<open>setIp\<close> fails with \<^verbatim>\<open>InvalidAddress\<close> when a
  segment is not numeric, in particular \<^verbatim>\<open>setIp('a.b.c.d')\<close> throws. The code: each segment
  parses to not-a-number, both comparisons of \<open>validateIp\<close> are false on it, and
  \<open>setIp\<close> returns with four not-a-number octets stored.
\<close>

theorem setIp_accepts_non_numeric:
  "setIp ''a.b.c.d'' this = (Inr (), this\<lparr>ipOctets := [NaN, NaN, NaN, NaN]\<rparr>)"
  by (simp add: ev)

text \<open>The two rejections the tests of the repository name do happen.\<close>

lemma setIp_rejects_300:
  "setIp ''192.168.1.300'' this = (Inl InvalidAddress, this)"
  by (simp add: ev)

lemma setIp_rejects_five_segments:
  "setIp ''192.168.1.300.1'' this = (Inl InvalidAddress, this)"
  by (simp add: ev)

text \<open>
  C2 (the code departs from the claim). The claim: \<^verbatim>\<open>setMask\<close> on a dotted mask stores the sum
  of the leading one-bits of its octets, 16 for \<^verbatim>\<open>'255.255.0.0'\<close> after a successful
  \<^verbatim>\<open>setMask(32)\<close>. The code: \<open>getMaskBitsFromSubnetMask\<close> counts only while the stored prefix
  length is 0 or not-a-number; after \<^verbatim>\<open>setMask(32)\<close> it hands back the stored 32, which is
  stored again.
\<close>

theorem setMask_dotted_keeps_stored_prefix:
  "setMask (MaskNumber (Fin 32)) this = (Inr (), this\<lparr>maskBits := Fin 32\<rparr>) \<and>
   setMask (MaskString ''255.255.0.0'') (this\<lparr>maskBits := Fin 32\<rparr>) =
     (Inr (), this\<lparr>maskBits := Fin 32\<rparr>)"
  by (simp add: ev)

text \<open>On an instance whose stored prefix length is 0 the same call does store 16.\<close>

lemma setMask_dotted_from_zero:
  "setMask (MaskString ''255.255.0.0'') (this\<lparr>maskBits := Fin 0\<rparr>) =
     (Inr (), this\<lparr>maskBits := Fin 16\<rparr>)"
  by (simp add: ev)

text \<open>
  C4 (the code departs from the claim). The claim: in every state reached through successful
  calls the stored octets are four integers from 0 to 255, never not-a-number. The code: the
  constructor succeeds on \<^verbatim>\<open>{ip: 'a.b.c.d'}\<close> and the instance holds four not-a-number octets.
\<close>

theorem constructor_stores_not_a_number:
  "new_Calculator (Some ''a.b.c.d'') None =
     Inr (initial\<lparr>ipOctets := [NaN, NaN, NaN, NaN], maskBits := Fin 32\<rparr>)"
  by (simp add: ev)

text \<open>
  C7 (the code departs from the claim). The claim: in a state with four stored octets and a
  non-zero prefix length, \<^verbatim>\<open>calculate()\<close> leaves the stored octets and the prefix length
  unchanged, and a second call gives the same values in all eleven output fields. The code:
  \<^verbatim>\<open>new Calculator({mask: NaN})\<close> succeeds and stores a not-a-number prefix length, which
  passes the guard \<^verbatim>\<open>mask === 0\<close> of \<^verbatim>\<open>calculate()\<close>; the first \<^verbatim>\<open>calculate()\<close> changes the
  stored prefix length to 32 and sets the output field \<^verbatim>\<open>mask\<close> to \<^verbatim>\<open>NaN\<close>, the second sets it
  to \<^verbatim>\<open>32\<close>.
\<close>

theorem calculate_rewrites_nan_prefix:
  "new_Calculator None (Some (MaskNumber NaN)) =
     Inr (initial\<lparr>ipOctets := [Fin 127, Fin 0, Fin 0, Fin 1], maskBits := NaN\<rparr>) \<and>
   calculate (initial\<lparr>ipOctets := [Fin 127, Fin 0, Fin 0, Fin 1], maskBits := NaN\<rparr>) =
     (Inr (),
      \<lparr>ipOctets = [Fin 127, Fin 0, Fin 0, Fin 1], maskBits = Fin 32, ip = ''127.0.0.1'',
       network = ''127.0.0.1'', netmask = ''255.255.255.255'', broadcast = ''127.0.0.1'',
       wildcard = ''0.0.0.0'', hostMin = ''127.0.0.2'', hostMax = ''127.0.0.0'',
       ipv4Class = ''A'', maxHosts = ''-1'', maxNetworks = ''4294967296'', mask_field = ''NaN''\<rparr>) \<and>
   calculate
     \<lparr>ipOctets = [Fin 127, Fin 0, Fin 0, Fin 1], maskBits = Fin 32, ip = ''127.0.0.1'',
      network = ''127.0.0.1'', netmask = ''255.255.255.255'', broadcast = ''127.0.0.1'',
      wildcard = ''0.0.0.0'', hostMin = ''127.0.0.2'', hostMax = ''127.0.0.0'',
      ipv4Class = ''A'', maxHosts = ''-1'', maxNetworks = ''4294967296'', mask_field = ''NaN''\<rparr> =
     (Inr (),
      \<lparr>ipOctets = [Fin 127, Fin 0, Fin 0, Fin 1], maskBits = Fin 32, ip = ''127.0.0.1'',
       network = ''127.0.0.1'', netmask = ''255.255.255.255'', broadcast = ''127.0.0.1'',
       wildcard = ''0.0.0.0'', hostMin = ''127.0.0.2'', hostMax = ''127.0.0.0'',
       ipv4Class = ''A'', maxHosts = ''-1'', maxNetworks = ''4294967296'', mask_field = ''32''\<rparr>)"
  by (simp add: ev)

text \<open>
  C9. For the address \<^verbatim>\<open>0.0.0.1\<close> with mask 16 the constructor and \<^verbatim>\<open>calculate\<close> succeed, the
  broadcast address is \<^verbatim>\<open>0.0.255.255\<close>, and the field \<^verbatim>\<open>hostMax\<close> is \<^verbatim>\<open>255.254\<close>, a string of two
  components: the decremented value is printed in hexadecimal without its leading zeros
  before it is cut into octets.
\<close>

theorem hostMax_loses_leading_zero_octets:
  "new_Calculator (Some ''0.0.0.1'') (Some (MaskNumber (Fin 16))) =
     Inr (initial\<lparr>ipOctets := [Fin 0, Fin 0, Fin 0, Fin 1], maskBits := Fin 16\<rparr>) \<and>
   calculate (initial\<lparr>ipOctets := [Fin 0, Fin 0, Fin 0, Fin 1], maskBits := Fin 16\<rparr>) =
     (Inr (),
      \<lparr>ipOctets = [Fin 0, Fin 0, Fin 0, Fin 1], maskBits = Fin 16, ip = ''0.0.0.1'',
       network = ''0.0.0.0'', netmask = ''255.255.0.0'', broadcast = ''0.0.255.255'',
       wildcard = ''0.0.255.255'', hostMin = ''0.0.0.1'', hostMax = ''255.254'',
       ipv4Class = ''A'', maxHosts = ''65534'', maxNetworks = ''65536'', mask_field = ''16''\<rparr>) \<and>
   split_on CHR ''.'' ''255.254'' = [''255'', ''254'']"
  by (simp add: ev)

section \<open>Properties of the calculator\<close>

text \<open>
  C5. \<^verbatim>\<open>calculate()\<close> throws \<^verbatim>\<open>InvalidAddressOrMask\<close> exactly when the stored address is absent
  (no octets) or the stored prefix length is 0, and returns otherwise; nothing else is thrown,
  since the broadcast address it hands to \<^verbatim>\<open>convertToHexa\<close> always validates. This holds in
  every state of the instance, so in particular for every constructed one.
\<close>

theorem calculate_throws_iff:
  "fst (calculate this) =
     (if ipOctets this = [] \<or> maskBits this = Fin 0 then Inl InvalidAddressOrMask else Inr ())"
proof (cases "ipOctets this = [] \<or> maskBits this = Fin 0")
  case True
  then show ?thesis by (auto simp: calculate_def Let_def invalidIPorMask_def)
next
  case False
  then have "fst (calculate this) = Inr ()" by (intro calculate_fields) simp_all
  with False show ?thesis by simp
qed

theorem calculate_throws_iff_witness:
  "fst (calculate initial) = Inl InvalidAddressOrMask \<and>
   fst (calculate (initial\<lparr>ipOctets := [Fin 127, Fin 0, Fin 0, Fin 1], maskBits := Fin 32\<rparr>)) = Inr ()"
  using calculate_throws_iff [of initial]
    calculate_throws_iff [of "initial\<lparr>ipOctets := [Fin 127, Fin 0, Fin 0, Fin 1], maskBits := Fin 32\<rparr>"]
  by (simp add: initial_def)

text \<open>
  C6. When \<^verbatim>\<open>setIp\<close> or \<^verbatim>\<open>setMask\<close> throws, the instance after the call is the instance before
  it; in particular the stored octets and the stored prefix length are unchanged.
  (\<open>getMaskBitsFromSubnetMask\<close> does assign the prefix length before \<open>validateMask\<close> runs, but
  the sum it assigns lies between 0 and 32 and is then accepted.)
\<close>

theorem setter_failure_keeps_state:
  "(fst (setIp str this) = Inl e \<longrightarrow>
      snd (setIp str this) = this) \<and>
   (fst (setMask arg this) = Inl e \<longrightarrow>
      snd (setMask arg this) = this \<and>
      ipOctets (snd (setMask arg this)) = ipOctets this \<and>
      maskBits (snd (setMask arg this)) = maskBits this)"
proof (intro conjI impI)
  assume "fst (setIp str this) = Inl e"
  then show "snd (setIp str this) = this"
    by (simp add: setIp_def split: sum.splits)
next
  assume err: "fst (setMask arg this) = Inl e"
  have same: "snd (setMask arg this) = this"
  proof (cases arg)
    case (MaskNumber n)
    with err show ?thesis
      by (auto simp: setMask_def validateMask_def split: if_splits)
  next
    case (MaskString s)
    show ?thesis
    proof (cases "all_digits s")
      case True
      with err MaskString show ?thesis
        by (auto simp: setMask_def validateMask_def split: if_splits)
    next
      case False
      show ?thesis
      proof (cases "validateIp s invalidMask")
        case (Inl e')
        with False MaskString show ?thesis by (simp add: setMask_def)
      next
        case (Inr octets)
        then have "length octets = 4" by (rule validateIp_length)
        then obtain a b c d where o: "octets = [a, b, c, d]" by (rule length_4E)
        show ?thesis
        proof (cases "falsy (maskBits this)")
          case True
          have "0 \<le> countLoop a 0 + countLoop b 0 + countLoop c 0 + countLoop d 0"
            and "countLoop a 0 + countLoop b 0 + countLoop c 0 + countLoop d 0 \<le> 32"
            using countLoop_range [of a] countLoop_range [of b]
              countLoop_range [of c] countLoop_range [of d] by simp_all
          then have "fst (setMask arg this) = Inr ()"
            using MaskString False Inr o True
            by (simp add: setMask_def getMaskBits_falsy validateMask_def)
          with err show ?thesis by simp
        next
          case nz: False
          with err MaskString False Inr show ?thesis
            by (auto simp: setMask_def getMaskBits_truthy validateMask_def split: if_splits)
        qed
      qed
    qed
  qed
  then show "snd (setMask arg this) = this"
    and "ipOctets (snd (setMask arg this)) = ipOctets this"
    and "maskBits (snd (setMask arg this)) = maskBits this"
    by simp_all
qed

theorem setter_failure_keeps_state_witness:
  "fst (setIp ''192.168.1.300'' initial) = Inl InvalidAddress \<and>
   snd (setIp ''192.168.1.300'' initial) = initial \<and>
   fst (setMask (MaskString ''255.255.0.300'') initial) = Inl InvalidMask \<and>
   snd (setMask (MaskString ''255.255.0.300'') initial) = initial \<and>
   maskBits (snd (setMask (MaskString ''255.255.0.300'') initial)) = maskBits initial"
proof -
  have a: "fst (setIp ''192.168.1.300'' initial) = Inl InvalidAddress"
    by (simp add: ev)
  have b: "fst (setMask (MaskString ''255.255.0.300'') initial) = Inl InvalidMask"
    by (simp add: ev)
  show ?thesis
    using a b
      setter_failure_keeps_state
        [where str = "''192.168.1.300''" and this = initial and e = InvalidAddress]
      setter_failure_keeps_state
        [where arg = "MaskString ''255.255.0.300''" and this = initial and e = InvalidMask]
    by simp
qed

text \<open>
  C8. With a prefix length \<open>P\<close> from 1 to 32 stored when \<^verbatim>\<open>calculate()\<close> runs, the field
  \<^verbatim>\<open>netmask\<close> holds four octets, and the 32-bit value read from them has bit \<open>i\<close> set exactly
  for \<open>32 - P \<le> i < 32\<close>: \<open>P\<close> leading one-bits followed by \<open>32 - P\<close> zero-bits.
\<close>

theorem netmask_leading_ones:
  assumes "ipOctets this \<noteq> []" and "maskBits this = Fin (of_int P)"
    and "1 \<le> P" and "P \<le> 32"
  shows "length (ipToOctetArray (netmask (snd (calculate this)))) = 4 \<and>
         list_all is_octet (ipToOctetArray (netmask (snd (calculate this)))) \<and>
         (\<forall>i<32. bit (octets_value (ipToOctetArray (netmask (snd (calculate this))))) i
                     \<longleftrightarrow> 32 - P \<le> int i)"
proof -
  let ?nm = "getNetworkMask (maskBits this)"
  obtain a b c d where nm: "?nm = [a, b, c, d]"
    and o: "is_octet a" "is_octet b" "is_octet c" "is_octet d"
    using getNetworkMask_octets by blast
  have nz: "maskBits this \<noteq> Fin 0" using assms(2,3) by simp
  have "netmask (snd (calculate this)) = join_numbers ''.'' ?nm"
    using assms(1) nz by (rule calculate_fields)
  then have readback: "ipToOctetArray (netmask (snd (calculate this))) = ?nm"
    using o by (simp add: nm ipToOctetArray_join)
  have "octets_value (getNetworkMask (Fin (of_int P))) = 2 ^ 32 - 2 ^ nat (32 - P)"
    using assms(3,4) by (rule octets_value_getNetworkMask)
  then have v: "octets_value ?nm = 2 ^ 32 - 2 ^ nat (32 - P)"
    by (simp only: assms(2))
  have "bit (octets_value ?nm) i \<longleftrightarrow> 32 - P \<le> int i" if "i < 32" for i
  proof -
    have "bit ((2::int) ^ 32 - 2 ^ nat (32 - P)) i
        \<longleftrightarrow> nat (32 - P) \<le> i \<and> i < 32"
      by (rule bit_ones_then_zeros) (use assms(3) in simp)
    then have "bit (octets_value ?nm) i \<longleftrightarrow> nat (32 - P) \<le> i \<and> i < 32"
      by (simp only: v)
    then show ?thesis using that by auto
  qed
  then show ?thesis
    using o by (simp add: readback) (simp add: nm)
qed

theorem netmask_leading_ones_witness:
  "ipOctets (initial\<lparr>ipOctets := [Fin 192, Fin 168, Fin 1, Fin 1], maskBits := Fin 24\<rparr>) \<noteq> [] \<and>
   maskBits (initial\<lparr>ipOctets := [Fin 192, Fin 168, Fin 1, Fin 1], maskBits := Fin 24\<rparr>) =
     Fin (of_int 24) \<and>
   (1::int) \<le> 24 \<and> (24::int) \<le> 32 \<and>
   bit (octets_value (ipToOctetArray (netmask (snd (calculate
     (initial\<lparr>ipOctets := [Fin 192, Fin 168, Fin 1, Fin 1], maskBits := Fin 24\<rparr>)))))) 8 \<and>
   \<not> bit (octets_value (ipToOctetArray (netmask (snd (calculate
     (initial\<lparr>ipOctets := [Fin 192, Fin 168, Fin 1, Fin 1], maskBits := Fin 24\<rparr>)))))) 7"
proof -
  let ?c = "initial\<lparr>ipOctets := [Fin 192, Fin 168, Fin 1, Fin 1], maskBits := Fin 24\<rparr>"
  have h: "ipOctets ?c \<noteq> []" "maskBits ?c = Fin (of_int 24)" "(1::int) \<le> 24" "(24::int) \<le> 32"
    by (simp_all add: initial_def)
  have "\<forall>i<32. bit (octets_value (ipToOctetArray (netmask (snd (calculate ?c))))) i
      \<longleftrightarrow> 32 - 24 \<le> int i"
    using netmask_leading_ones [OF h] by simp
  then have "bit (octets_value (ipToOctetArray (netmask (snd (calculate ?c))))) 8"
    and "\<not> bit (octets_value (ipToOctetArray (netmask (snd (calculate ?c))))) 7"
    by simp_all
  with h show ?thesis by simp
qed

text \<open>
  C10. With a stored address whose last octet is 255 and the prefix length 32,
  \<^verbatim>\<open>calculate()\<close> returns and the last dot-separated component of \<^verbatim>\<open>hostMin\<close> is \<^verbatim>\<open>256\<close>: the
  network address keeps the last octet 255 and 1 is added to it without bound or carry. The
  octet 256 is out of range: \<open>validateIp\<close> rejects the string \<^verbatim>\<open>hostMin\<close> holds.
\<close>

theorem hostMin_last_octet_256:
  assumes "ipOctets this = [a, b, c, Fin 255]" and "maskBits this = Fin 32"
  shows "fst (calculate this) = Inr () \<and>
         last (split_on CHR ''.'' (hostMin (snd (calculate this)))) = ''256'' \<and>
         last (ipToOctetArray (hostMin (snd (calculate this)))) = Fin 256 \<and>
         validateIp (hostMin (snd (calculate this))) message = Inl message"
proof -
  let ?x = "bit_and a (Fin 255)" and ?y = "bit_and b (Fin 255)" and ?z = "bit_and c (Fin 255)"
  have ne: "ipOctets this \<noteq> []" "maskBits this \<noteq> Fin 0" using assms by simp_all
  have last_octet: "bit_and (Fin 255) (Fin 255) = Fin 255"
    by (simp add: bit_and_def of_int32_def int32_numerals)
  have "hostMin (snd (calculate this)) =
      join_numbers ''.'' (getHostMin (getNetwork (ipOctets this)
        (getNetworkMask (maskBits this))))"
    using ne by (rule calculate_fields)
  also have "\<dots> = join_numbers ''.'' [?x, ?y, ?z, Fin 256]"
    by (simp add: assms getNetworkMask_32 getNetwork_def getHostMin_def set_at_def last_octet)
  finally have hm: "hostMin (snd (calculate this)) =
      numToString 10 ?x @ CHR ''.'' # numToString 10 ?y @ CHR ''.'' # numToString 10 ?z @ ''.256''"
    by (simp add: join_numbers_def nat_digits_256)
  have sp: "split_on CHR ''.'' (hostMin (snd (calculate this))) =
      [numToString 10 ?x, numToString 10 ?y, numToString 10 ?z, ''256'']"
    by (simp add: hm split_on_append numToString_octet_no_dot)
  then have oc: "ipToOctetArray (hostMin (snd (calculate this))) = [?x, ?y, ?z, Fin 256]"
    by (simp add: ipToOctetArray_def Number_numToString_octet Number_256)
  have "fst (calculate this) = Inr ()" using ne by (rule calculate_fields)
  then show ?thesis
    by (simp add: sp oc validateIp_def)
qed

theorem hostMin_last_octet_256_witness:
  "ipOctets (initial\<lparr>ipOctets := [Fin 10, Fin 0, Fin 0, Fin 255], maskBits := Fin 32\<rparr>) =
     [Fin 10, Fin 0, Fin 0, Fin 255] \<and>
   maskBits (initial\<lparr>ipOctets := [Fin 10, Fin 0, Fin 0, Fin 255], maskBits := Fin 32\<rparr>) = Fin 32 \<and>
   fst (calculate (initial\<lparr>ipOctets := [Fin 10, Fin 0, Fin 0, Fin 255], maskBits := Fin 32\<rparr>)) = Inr () \<and>
   last (split_on CHR ''.''
     (hostMin (snd (calculate (initial\<lparr>ipOctets := [Fin 10, Fin 0, Fin 0, Fin 255], maskBits := Fin 32\<rparr>)))))
     = ''256''"
  using hostMin_last_octet_256
    [of "initial\<lparr>ipOctets := [Fin 10, Fin 0, Fin 0, Fin 255], maskBits := Fin 32\<rparr>"
      "Fin 10" "Fin 0" "Fin 0"]
  by (simp add: initial_def)




end
